theory Spec2Isabelle
  imports Main "HOL-Library.Char_ord" "HOL-Library.List_Lexorder" "HOL-Library.Sublist"
    "HOL-Library.Multiset"
begin

section \<open>Go strings and the library functions the package calls\<close>

text \<open>
  A Go string is a sequence of bytes, modelled as \<open>string\<close> (a list of 8-bit characters).
  The functions of this section stand for the standard library functions the package calls.
  They are written out for bytes: \<open>strings.ToLower\<close> and \<open>strings.TrimSpace\<close> are the
  library functions on ASCII text (bytes from 128 upwards are left alone), which is what flag
  names, descriptor tags and the tests of the repository use.
\<close>

definition isUpper :: "char \<Rightarrow> bool" where
  "isUpper c = (65 \<le> (of_char c :: nat) \<and> (of_char c :: nat) \<le> 90)"

definition isLower :: "char \<Rightarrow> bool" where
  "isLower c = (97 \<le> (of_char c :: nat) \<and> (of_char c :: nat) \<le> 122)"

definition isDigit :: "char \<Rightarrow> bool" where
  "isDigit c = (48 \<le> (of_char c :: nat) \<and> (of_char c :: nat) \<le> 57)"

text \<open>\<open>r - 'A' + 'a'\<close> on an upper-case letter.\<close>

definition toLowerChar :: "char \<Rightarrow> char" where
  "toLowerChar c = (if isUpper c then char_of ((of_char c :: nat) + 32) else c)"

definition toLower :: "string \<Rightarrow> string" where
  "toLower s = map toLowerChar s"

text \<open>The white space \<open>strings.TrimSpace\<close> removes: tab, line feed, vertical tab, form feed,
  carriage return and space.\<close>

definition isSpace :: "char \<Rightarrow> bool" where
  "isSpace c = ((9 \<le> (of_char c :: nat) \<and> (of_char c :: nat) \<le> 13) \<or> (of_char c :: nat) = 32)"

definition trimSpace :: "string \<Rightarrow> string" where
  "trimSpace s = rev (dropWhile isSpace (rev (dropWhile isSpace s)))"

text \<open>\<open>strings.HasPrefix(s, p)\<close>, \<open>strings.HasSuffix(s, p)\<close> and \<open>strings.Contains(s, c)\<close>
  for a one-byte \<open>c\<close> (the only use the package makes of it).\<close>

definition hasPrefix :: "string \<Rightarrow> string \<Rightarrow> bool" where
  "hasPrefix s p = (take (length p) s = p)"

definition hasSuffix :: "string \<Rightarrow> string \<Rightarrow> bool" where
  "hasSuffix s p = (take (length p) (rev s) = rev p)"

definition containsChar :: "string \<Rightarrow> char \<Rightarrow> bool" where
  "containsChar s c = (c \<in> set s)"

text \<open>\<open>strings.Split(s, sep)\<close> for a one-byte separator: always at least one part.\<close>

fun splitOn :: "char \<Rightarrow> string \<Rightarrow> string list" where
  "splitOn c [] = [[]]"
| "splitOn c (x # xs) =
     (if x = c then [] # splitOn c xs
      else (case splitOn c xs of [] \<Rightarrow> [[x]] | p # ps \<Rightarrow> (x # p) # ps))"

text \<open>\<open>strings.SplitN(s, sep, 2)\<close>: cut at the first separator only.\<close>

definition splitN2 :: "char \<Rightarrow> string \<Rightarrow> string list" where
  "splitN2 c s =
     (if c \<in> set s then [takeWhile (\<lambda>x. x \<noteq> c) s, tl (dropWhile (\<lambda>x. x \<noteq> c) s)] else [s])"

fun joinStrings :: "string \<Rightarrow> string list \<Rightarrow> string" where
  "joinStrings sep [] = []"
| "joinStrings sep [x] = x"
| "joinStrings sep (x # y # ys) = x @ sep @ joinStrings sep (y # ys)"

text \<open>\<open>strings.Index(s, c)\<close> for a one-byte \<open>c\<close>: the first position, or \<open>-1\<close>.\<close>

fun indexChar :: "string \<Rightarrow> char \<Rightarrow> int" where
  "indexChar [] c = -1"
| "indexChar (x # xs) c =
     (if x = c then 0 else (let r = indexChar xs c in if r < 0 then -1 else r + 1))"

text \<open>\<open>strconv.ParseBool\<close>: the twelve spellings it accepts.\<close>

definition parseBool :: "string \<Rightarrow> bool option" where
  "parseBool s =
     (if s \<in> set [''1'', ''t'', ''T'', ''TRUE'', ''true'', ''True''] then Some True
      else if s \<in> set [''0'', ''f'', ''F'', ''FALSE'', ''false'', ''False''] then Some False
      else None)"

text \<open>The verb \<open>%d\<close> of \<open>fmt\<close> on a non-negative number.\<close>

fun showNat :: "nat \<Rightarrow> string" where
  "showNat n =
     (if n < 10 then [char_of (48 + n)] else showNat (n div 10) @ [char_of (48 + n mod 10)])"

declare showNat.simps [simp del]

section \<open>The data model (types.go)\<close>

datatype FieldType =
  FieldTypeString | FieldTypeField | FieldTypeFile | FieldTypeNumber | FieldTypeFlag | FieldTypeMulti

datatype ArgumentType =
  ArgumentTypeString | ArgumentTypeField | ArgumentTypeContent | ArgumentTypeFile | ArgumentTypeNumber

datatype FieldScope = ScopeGlobal | ScopeLocal

datatype FieldMode = ModeLast | ModeList

text \<open>The fields \<open>Name\<close> and \<open>Type\<close> of \<open>ArgumentSpec\<close> are \<open>ArgName\<close> and \<open>ArgType\<close>
  here, since \<open>FieldMeta\<close> has fields of the same names.\<close>

record ArgumentSpec =
  ArgName :: string
  ArgType :: ArgumentType

text \<open>
  A value of Go's \<open>interface{}\<close> as the parser stores it: a string, a \<open>float64\<close>, a
  \<open>bool\<close>, a \<open>[]interface{}\<close>, the \<open>[]string\<close> of the positional arguments, or a
  \<open>map[string]interface{}\<close>. The type \<open>'n\<close> stands for \<open>float64\<close>: the parser only
  obtains such values from \<open>strconv.ParseFloat\<close>, which every function below takes as the
  parameter \<open>pf\<close> (\<open>Inl\<close> its error message), and from the constant \<open>0.0\<close>.
\<close>

datatype 'n gvalue =
  VString string
| VNumber 'n
| VBool bool
| VList "'n gvalue list"
| VStrings "string list"
| VMap "string \<Rightarrow> 'n gvalue option"

record 'n FieldMeta =
  Name :: string
  Type :: FieldType
  Scope :: FieldScope
  Mode :: FieldMode
  Args :: "ArgumentSpec list"
  DefaultValue :: "'n gvalue option"
  Help :: string
  Required :: bool
  Complete :: string
  Suffix :: string
  Enum :: "string list"

record 'n ClauseSet =
  Fields :: "string \<Rightarrow> 'n gvalue option"
  IsNegated :: bool

section \<open>Descriptor tags (parser.go)\<close>

text \<open>\<open>parseTagParts\<close>: split at the commas that are outside braces. The loop state is the
  parts so far, the current part and the brace depth (a Go \<open>int\<close>, which may go negative).\<close>

fun parseTagPartsLoop :: "string \<Rightarrow> string list \<Rightarrow> string \<Rightarrow> int \<Rightarrow> string list" where
  "parseTagPartsLoop [] parts current braceDepth =
     (if length current > 0 then parts @ [current] else parts)"
| "parseTagPartsLoop (char # rest) parts current braceDepth =
     (if char = CHR ''{'' then parseTagPartsLoop rest parts (current @ [char]) (braceDepth + 1)
      else if char = CHR ''}'' then parseTagPartsLoop rest parts (current @ [char]) (braceDepth - 1)
      else if char = CHR '','' then
        (if braceDepth = 0 then parseTagPartsLoop rest (parts @ [current]) [] braceDepth
         else parseTagPartsLoop rest parts (current @ [char]) braceDepth)
      else parseTagPartsLoop rest parts (current @ [char]) braceDepth)"

definition parseTagParts :: "string \<Rightarrow> string list" where
  "parseTagParts tag = parseTagPartsLoop tag [] [] 0"

text \<open>The three positional parsers and \<open>parseKeyValue\<close> write through a pointer to the
  descriptor and return an error; here they return the descriptor as they leave it, with the
  error (\<open>None\<close> is Go's \<open>nil\<close>).\<close>

definition parseFieldType :: "string \<Rightarrow> 'n FieldMeta \<Rightarrow> 'n FieldMeta \<times> string option" where
  "parseFieldType s meta =
     (if s = ''string'' then (meta\<lparr>Type := FieldTypeString\<rparr>, None)
      else if s = ''field'' then (meta\<lparr>Type := FieldTypeField\<rparr>, None)
      else if s = ''file'' then (meta\<lparr>Type := FieldTypeFile\<rparr>, None)
      else if s = ''number'' then (meta\<lparr>Type := FieldTypeNumber\<rparr>, None)
      else if s = ''flag'' then (meta\<lparr>Type := FieldTypeFlag\<rparr>, None)
      else if s = ''multi'' then (meta\<lparr>Type := FieldTypeMulti\<rparr>, None)
      else (meta, Some (''unknown field type: '' @ s)))"

definition parseFieldScope :: "string \<Rightarrow> 'n FieldMeta \<Rightarrow> 'n FieldMeta \<times> string option" where
  "parseFieldScope s meta =
     (if s = ''global'' then (meta\<lparr>Scope := ScopeGlobal\<rparr>, None)
      else if s = ''local'' then (meta\<lparr>Scope := ScopeLocal\<rparr>, None)
      else (meta, Some (''unknown field scope: '' @ s)))"

definition parseFieldMode :: "string \<Rightarrow> 'n FieldMeta \<Rightarrow> 'n FieldMeta \<times> string option" where
  "parseFieldMode s meta =
     (if s = ''last'' then (meta\<lparr>Mode := ModeLast\<rparr>, None)
      else if s = ''list'' then (meta\<lparr>Mode := ModeList\<rparr>, None)
      else (meta, Some (''unknown field mode: '' @ s)))"

definition parseDefaultValue ::
  "(string \<Rightarrow> string + 'n) \<Rightarrow> string \<Rightarrow> FieldType \<Rightarrow> ('n::zero) gvalue" where
  "parseDefaultValue pf v fieldType =
     (case fieldType of
        FieldTypeNumber \<Rightarrow> (case pf v of Inr num \<Rightarrow> VNumber num | Inl e \<Rightarrow> VNumber 0)
      | FieldTypeFlag \<Rightarrow> (case parseBool v of Some b \<Rightarrow> VBool b | None \<Rightarrow> VBool False)
      | _ \<Rightarrow> VString v)"

definition parseArgumentType :: "string \<Rightarrow> ArgumentType" where
  "parseArgumentType s =
     (if s = ''string'' then ArgumentTypeString
      else if s = ''field'' then ArgumentTypeField
      else if s = ''content'' then ArgumentTypeContent
      else if s = ''file'' then ArgumentTypeFile
      else if s = ''number'' then ArgumentTypeNumber
      else ArgumentTypeString)"

text \<open>\<open>parseArgumentSpecs\<close>: \<open>parseArgumentType\<close> never returns an error, so neither does
  this function.\<close>

definition parseArgumentSpecs :: "string \<Rightarrow> ArgumentSpec list" where
  "parseArgumentSpecs v =
     (let parts = (if containsChar v CHR '':'' then splitOn CHR '':'' v else splitOn CHR '','' v)
      in map (\<lambda>p. \<lparr>ArgName = trimSpace p, ArgType = parseArgumentType (trimSpace p)\<rparr>) parts)"

definition parseEnumValues :: "string \<Rightarrow> string list" where
  "parseEnumValues v =
     (if containsChar v CHR '','' then map trimSpace (splitOn CHR '','' v)
      else if containsChar v CHR '':'' then map trimSpace (splitOn CHR '':'' v)
      else [trimSpace v])"

definition parseKeyValue ::
  "(string \<Rightarrow> string + 'n) \<Rightarrow> string \<Rightarrow> ('n::zero) FieldMeta \<Rightarrow> 'n FieldMeta \<times> string option" where
  "parseKeyValue pf kv meta =
     (case splitN2 CHR ''='' kv of
        [k, v] \<Rightarrow>
          (let key = trimSpace k; val = trimSpace v in
           if key = ''help'' then (meta\<lparr>Help := val\<rparr>, None)
           else if key = ''default'' then
             (meta\<lparr>DefaultValue := Some (parseDefaultValue pf val (Type meta))\<rparr>, None)
           else if key = ''required'' then
             (case parseBool val of
                Some b \<Rightarrow> (meta\<lparr>Required := b\<rparr>, None)
              | None \<Rightarrow> (meta\<lparr>Required := False\<rparr>,
                          Some (''invalid boolean for required: '' @ val)))
           else if key = ''complete'' then (meta\<lparr>Complete := val\<rparr>, None)
           else if key = ''args'' then (meta\<lparr>Args := parseArgumentSpecs val\<rparr>, None)
           else if key = ''suffix'' then (meta\<lparr>Suffix := val\<rparr>, None)
           else if key = ''enum'' then (meta\<lparr>Enum := parseEnumValues val\<rparr>, None)
           else (meta, Some (''unknown key in tag: '' @ key)))
      | _ \<Rightarrow> (meta, Some (''invalid key=value pair: '' @ kv)))"

text \<open>The body of the loop of \<open>parseFieldTag\<close> for the part at index \<open>i\<close>: an empty
  part is skipped, a part with \<open>=\<close> is a key and its value, any other part is read by its
  position. The last branch is the \<open>default\<close> of the \<open>switch i\<close>.\<close>

definition parseFieldTagPart ::
  "(string \<Rightarrow> string + 'n) \<Rightarrow> nat \<Rightarrow> string \<Rightarrow> ('n::zero) FieldMeta
     \<Rightarrow> 'n FieldMeta \<times> string option" where
  "parseFieldTagPart pf i p meta =
     (let part = trimSpace p in
      if part = [] then (meta, None)
      else if containsChar part CHR ''='' then parseKeyValue pf part meta
      else if i = 0 then parseFieldType part meta
      else if i = 1 then parseFieldScope part meta
      else if i = 2 then parseFieldMode part meta
      else if containsChar part CHR ''='' then parseKeyValue pf part meta
      else (meta, None))"

text \<open>The loop itself returns at the first error.\<close>

fun parseFieldTagLoop ::
  "(string \<Rightarrow> string + 'n) \<Rightarrow> nat \<Rightarrow> string list \<Rightarrow> ('n::zero) FieldMeta
     \<Rightarrow> 'n FieldMeta \<times> string option" where
  "parseFieldTagLoop pf i [] meta = (meta, None)"
| "parseFieldTagLoop pf i (p # ps) meta =
     (case parseFieldTagPart pf i p meta of
        (meta', Some err) \<Rightarrow> (meta', Some err)
      | (meta', None) \<Rightarrow> parseFieldTagLoop pf (Suc i) ps meta')"

definition initialMeta :: "string \<Rightarrow> 'n FieldMeta" where
  "initialMeta fieldName =
     \<lparr>Name = fieldName, Type = FieldTypeString, Scope = ScopeGlobal, Mode = ModeLast,
      Args = [], DefaultValue = None, Help = [], Required = False, Complete = [],
      Suffix = [], Enum = []\<rparr>"

definition parseFieldTag ::
  "(string \<Rightarrow> string + 'n) \<Rightarrow> string \<Rightarrow> string \<Rightarrow> ('n::zero) FieldMeta \<times> string option" where
  "parseFieldTag pf fieldName tag =
     (let meta = initialMeta fieldName; parts = parseTagParts tag in
      if length parts = 0 then (meta, Some ''empty tag'')
      else parseFieldTagLoop pf 0 parts meta)"

text \<open>\<open>parseFlagName\<close>: the loop writes a hyphen before every upper-case letter but the
  first byte, and the letter in lower case.\<close>

fun parseFlagNameLoop :: "nat \<Rightarrow> string \<Rightarrow> string" where
  "parseFlagNameLoop i [] = []"
| "parseFlagNameLoop i (r # rs) =
     (if i > 0 \<and> isUpper r then ''-'' else []) @
     [if isUpper r then toLowerChar r else r] @ parseFlagNameLoop (Suc i) rs"

definition parseFlagName :: "string \<Rightarrow> string" where
  "parseFlagName fieldName =
     (if length fieldName = 1 then ''-'' @ toLower fieldName
      else ''-'' @ parseFlagNameLoop 0 fieldName)"

text \<open>\<open>reflectFields\<close> walks the fields of the configuration struct; the struct is given
  here as the list of its field names with their \<open>gs\<close> tags. A descriptor returned with an
  error is dropped, and so is the whole list.\<close>

fun reflectFields ::
  "(string \<Rightarrow> string + 'n) \<Rightarrow> (string \<times> string) list \<Rightarrow> string + ('n::zero) FieldMeta list" where
  "reflectFields pf [] = Inr []"
| "reflectFields pf ((name, tag) # rest) =
     (if tag = [] then reflectFields pf rest
      else (case parseFieldTag pf name tag of
              (meta, Some err) \<Rightarrow> Inl (''parsing field '' @ name @ '': '' @ err)
            | (meta, None) \<Rightarrow>
                (case reflectFields pf rest of
                   Inl e \<Rightarrow> Inl e
                 | Inr metas \<Rightarrow> Inr (meta # metas))))"

section \<open>The clause parser (command.go)\<close>

text \<open>
  A command holds the descriptors of its fields (\<open>cmd.fields\<close>), in the order of the
  configuration struct. The functions below take that list as \<open>metas\<close>. A Go
  \<open>map[string]interface{}\<close> is a partial function from keys to values, and an error built by
  \<open>fmt.Errorf\<close> is its message.
\<close>

type_synonym 'n gmap = "string \<Rightarrow> 'n gvalue option"

text \<open>The search for the descriptor of a flag, as \<open>parseFlagWithNegation\<close> and
  \<open>findLastFlag\<close> both write it: the first field whose flag name is the given one.\<close>

fun findField :: "'n FieldMeta list \<Rightarrow> string \<Rightarrow> 'n FieldMeta option" where
  "findField [] flagName = None"
| "findField (f # fs) flagName =
     (if flagName = parseFlagName (Name f) then Some f else findField fs flagName)"

text \<open>\<open>parseValue\<close>. The message of \<open>strconv.ParseBool\<close> quotes the value; the quoting is
  written for a value without characters to escape.\<close>

definition parseValue ::
  "(string \<Rightarrow> string + 'n) \<Rightarrow> string \<Rightarrow> FieldType \<Rightarrow> string + 'n gvalue" where
  "parseValue pf v fieldType =
     (case fieldType of
        FieldTypeNumber \<Rightarrow> (case pf v of Inl e \<Rightarrow> Inl e | Inr num \<Rightarrow> Inr (VNumber num))
      | FieldTypeFlag \<Rightarrow>
          (case parseBool v of
             Some b \<Rightarrow> Inr (VBool b)
           | None \<Rightarrow> Inl (''strconv.ParseBool: parsing '' @ [CHR 0x22] @ v @ [CHR 0x22]
                            @ '': invalid syntax''))
      | _ \<Rightarrow> Inr (VString v))"

definition parseValueWithValidation ::
  "(string \<Rightarrow> string + 'n) \<Rightarrow> string \<Rightarrow> 'n FieldMeta \<Rightarrow> string + 'n gvalue" where
  "parseValueWithValidation pf v fieldMeta =
     (case parseValue pf v (Type fieldMeta) of
        Inl err \<Rightarrow> Inl err
      | Inr parsedValue \<Rightarrow>
          (if Type fieldMeta = FieldTypeString \<and> length (Enum fieldMeta) > 0 then
             (if v \<in> set (Enum fieldMeta) then Inr parsedValue
              else Inl (''invalid value '' @ [CHR 0x27] @ v @ [CHR 0x27] @ '', must be one of: ''
                        @ joinStrings '', '' (Enum fieldMeta)))
           else Inr parsedValue))"

definition parseValueByArgumentType ::
  "(string \<Rightarrow> string + 'n) \<Rightarrow> string \<Rightarrow> ArgumentType \<Rightarrow> string + 'n gvalue" where
  "parseValueByArgumentType pf v argType =
     (case argType of
        ArgumentTypeNumber \<Rightarrow> (case pf v of Inl e \<Rightarrow> Inl e | Inr num \<Rightarrow> Inr (VNumber num))
      | _ \<Rightarrow> Inr (VString v))"

text \<open>The loop of the multi-argument branch over the argument specifications, each with the
  token \<open>args[i+1]\<close>. The caller has checked that there are enough tokens, so the third
  equation is never reached.\<close>

fun parseMultiArgs ::
  "(string \<Rightarrow> string + 'n) \<Rightarrow> string \<Rightarrow> ArgumentSpec list \<Rightarrow> string list \<Rightarrow> 'n gmap
     \<Rightarrow> string + 'n gmap" where
  "parseMultiArgs pf flagName [] vs argValues = Inr argValues"
| "parseMultiArgs pf flagName (argSpec # specs) (argValue # vs) argValues =
     (case parseValueByArgumentType pf argValue (ArgType argSpec) of
        Inl err \<Rightarrow> Inl (''parsing argument '' @ ArgName argSpec @ '' for '' @ flagName @ '': '' @ err)
      | Inr parsedValue \<Rightarrow>
          parseMultiArgs pf flagName specs vs (argValues(ArgName argSpec \<mapsto> parsedValue)))"
| "parseMultiArgs pf flagName (argSpec # specs) [] argValues = Inl ''index out of range''"

text \<open>The block "handle list vs last mode", which the multi-argument branch and the
  single-argument branch of \<open>parseFlagWithNegation\<close> both contain: in list mode the value is
  appended to the list stored so far (a stored value that is no list becomes the first element),
  in last mode it replaces what is stored.\<close>

definition storeValue :: "FieldMode \<Rightarrow> 'n gmap \<Rightarrow> string \<Rightarrow> 'n gvalue \<Rightarrow> 'n gmap" where
  "storeValue mode target name v =
     (if mode = ModeList then
        (case target name of
           None \<Rightarrow> target(name \<mapsto> VList [v])
         | Some (VList list) \<Rightarrow> target(name \<mapsto> VList (list @ [v]))
         | Some existing \<Rightarrow> target(name \<mapsto> VList [existing, v]))
      else target(name \<mapsto> v))"

text \<open>\<open>target\<close> is the global map for a field of global scope and the map of the current
  clause otherwise; \<open>putTarget\<close> writes the updated map back where it came from.\<close>

definition getTarget :: "'n FieldMeta \<Rightarrow> 'n ClauseSet \<Rightarrow> 'n gmap \<Rightarrow> 'n gmap" where
  "getTarget fieldMeta clause global =
     (if Scope fieldMeta = ScopeGlobal then global else Fields clause)"

definition putTarget ::
  "'n FieldMeta \<Rightarrow> 'n ClauseSet \<Rightarrow> 'n gmap \<Rightarrow> 'n gmap \<Rightarrow> 'n ClauseSet \<times> 'n gmap" where
  "putTarget fieldMeta clause global target =
     (if Scope fieldMeta = ScopeGlobal then (clause, target)
      else (clause\<lparr>Fields := target\<rparr>, global))"

text \<open>\<open>parseFlagWithNegation\<close> returns the number of tokens consumed, with the current clause
  and the global map as it leaves them, or the error.\<close>

definition parseFlagWithNegation ::
  "'n FieldMeta list \<Rightarrow> (string \<Rightarrow> string + 'n) \<Rightarrow> string list \<Rightarrow> 'n ClauseSet \<Rightarrow> 'n gmap
     \<Rightarrow> bool \<Rightarrow> string + (nat \<times> 'n ClauseSet \<times> 'n gmap)" where
  "parseFlagWithNegation metas pf args clause global negated =
     (if length args = 0 then Inl ''no arguments to parse''
      else
        (let flagName = hd args in
         case findField metas flagName of
           None \<Rightarrow> Inl (''unknown flag: '' @ flagName)
         | Some fieldMeta \<Rightarrow>
             (let target = getTarget fieldMeta clause global in
              case Type fieldMeta of
                FieldTypeFlag \<Rightarrow>
                  Inr (1, putTarget fieldMeta clause global (target(Name fieldMeta \<mapsto> VBool True)))
              | FieldTypeMulti \<Rightarrow>
                  (if length (Args fieldMeta) = 0 then
                     Inl (''multi-argument flag '' @ flagName @ '' has no argument specification'')
                   else
                     (let requiredArgs = length (Args fieldMeta) in
                      if length args < requiredArgs + 1 then
                        Inl (''flag '' @ flagName @ '' requires '' @ showNat requiredArgs
                             @ '' arguments'')
                      else
                        (case parseMultiArgs pf flagName (Args fieldMeta) (tl args) Map.empty of
                           Inl err \<Rightarrow> Inl err
                         | Inr argValues \<Rightarrow>
                             (let argValues' =
                                    (if negated then argValues(''_negated'' \<mapsto> VBool True)
                                     else argValues)
                              in Inr (requiredArgs + 1,
                                      putTarget fieldMeta clause global
                                        (storeValue (Mode fieldMeta) target (Name fieldMeta)
                                           (VMap argValues')))))))
              | _ \<Rightarrow>
                  (if length args < 2 then Inl (''flag '' @ flagName @ '' requires a value'')
                   else
                     (case parseValueWithValidation pf (args ! 1) fieldMeta of
                        Inl err \<Rightarrow> Inl (''parsing value for '' @ flagName @ '': '' @ err)
                      | Inr parsedValue \<Rightarrow>
                          (let valueToStore =
                                 (if negated then
                                    VMap [''value'' \<mapsto> parsedValue, ''_negated'' \<mapsto> VBool True]
                                  else parsedValue)
                           in Inr (2,
                                   putTarget fieldMeta clause global
                                     (storeValue (Mode fieldMeta) target (Name fieldMeta)
                                        valueToStore))))))))"

text \<open>\<open>getStringSlice\<close> on the value stored under a key, \<open>None\<close> being \<open>nil\<close>.\<close>

definition getStringSlice :: "'n gvalue option \<Rightarrow> string list" where
  "getStringSlice v = (case v of Some (VStrings slice) \<Rightarrow> slice | _ \<Rightarrow> [])"

definition newClause :: "bool \<Rightarrow> 'n ClauseSet" where
  "newClause negated = \<lparr>Fields = Map.empty, IsNegated = negated\<rparr>"

text \<open>The positional branch of the loop of \<open>Parse\<close>: the token joins \<open>_args\<close>, and a token
  with a tabular extension becomes \<open>Argv\<close> unless the clause or the global map has one.\<close>

definition positional :: "string \<Rightarrow> 'n ClauseSet \<Rightarrow> 'n gmap \<Rightarrow> 'n ClauseSet" where
  "positional arg current global =
     (let fields1 = (Fields current)(''_args'' \<mapsto>
                       VStrings (getStringSlice (Fields current ''_args'') @ [arg]))
      in if hasSuffix (toLower arg) ''.tsv'' \<or> hasSuffix (toLower arg) ''.csv'' then
           (if fields1 ''Argv'' = None then
              (if global ''Argv'' = None then current\<lparr>Fields := fields1(''Argv'' \<mapsto> VString arg)\<rparr>
               else current\<lparr>Fields := fields1\<rparr>)
            else current\<lparr>Fields := fields1\<rparr>)
         else current\<lparr>Fields := fields1\<rparr>)"

lemma parseFlagWithNegation_consumed:
  "parseFlagWithNegation metas pf args clause global negated = Inr (n, r) \<Longrightarrow> 0 < n"
  by (auto simp: parseFlagWithNegation_def Let_def
           split: if_splits option.splits FieldType.splits sum.splits)

text \<open>
  The scanning loop of \<open>Parse\<close>. The first argument is \<open>args[i:]\<close>, the tokens from the
  index \<open>i\<close> on; \<open>i += consumed\<close> drops that many of them. The state is the list of
  clauses closed so far, the current clause and the global map.
\<close>

function parseLoop ::
  "'n FieldMeta list \<Rightarrow> (string \<Rightarrow> string + 'n) \<Rightarrow> string list \<Rightarrow> 'n ClauseSet list
     \<Rightarrow> 'n ClauseSet \<Rightarrow> 'n gmap \<Rightarrow> string + ('n ClauseSet list \<times> 'n ClauseSet \<times> 'n gmap)" where
  "parseLoop metas pf [] clauses current global = Inr (clauses, current, global)"
| "parseLoop metas pf (arg # rest) clauses current global =
     (if arg = ''+'' then parseLoop metas pf rest (clauses @ [current]) (newClause True) global
      else if arg = ''-'' then parseLoop metas pf rest (clauses @ [current]) (newClause False) global
      else if hasPrefix arg ''+'' then
        (if length arg > 1 then
           (case parseFlagWithNegation metas pf ((''-'' @ tl arg) # rest) current global True of
              Inl err \<Rightarrow> Inl err
            | Inr (consumed, current', global') \<Rightarrow>
                parseLoop metas pf (drop consumed (arg # rest)) clauses current' global')
         else parseLoop metas pf rest (clauses @ [current]) (newClause True) global)
      else if hasPrefix arg ''-'' then
        (if length arg > 1 then
           (case parseFlagWithNegation metas pf (arg # rest) current global False of
              Inl err \<Rightarrow> Inl err
            | Inr (consumed, current', global') \<Rightarrow>
                parseLoop metas pf (drop consumed (arg # rest)) clauses current' global')
         else parseLoop metas pf rest (clauses @ [current]) (newClause False) global)
      else parseLoop metas pf rest clauses (positional arg current global) global)"
  by pat_completeness auto
termination
  by (relation "measure (\<lambda>(metas, pf, args, clauses, current, global). length args)")
     (auto dest: parseFlagWithNegation_consumed)

text \<open>\<open>applyDefaults\<close>: every clause gets the default of each field it does not define.\<close>

fun applyDefaultsClause :: "'n FieldMeta list \<Rightarrow> 'n gmap \<Rightarrow> 'n gmap" where
  "applyDefaultsClause [] fs = fs"
| "applyDefaultsClause (fieldMeta # metas) fs =
     applyDefaultsClause metas
       (if fs (Name fieldMeta) = None then
          (case DefaultValue fieldMeta of
             Some d \<Rightarrow> fs(Name fieldMeta \<mapsto> d)
           | None \<Rightarrow> fs)
        else fs)"

definition applyDefaults :: "'n FieldMeta list \<Rightarrow> 'n ClauseSet list \<Rightarrow> 'n ClauseSet list" where
  "applyDefaults metas clauses =
     map (\<lambda>c. c\<lparr>Fields := applyDefaultsClause metas (Fields c)\<rparr>) clauses"

text \<open>
  \<open>Parse\<close>: the scan, the final clause, the global values copied into every clause that does
  not define them (\<open>global ++ Fields c\<close> is the map of the clause with the missing keys taken
  from \<open>global\<close>), and the defaults. What \<open>Parse\<close> does after that (the defaults of the
  global map, and \<open>applyGlobalToConfig\<close>, which writes the global values into the
  configuration struct and always returns \<open>nil\<close>) does not change the clauses it returns.
\<close>

definition Parse ::
  "'n FieldMeta list \<Rightarrow> (string \<Rightarrow> string + 'n) \<Rightarrow> string list \<Rightarrow> string + 'n ClauseSet list" where
  "Parse metas pf args =
     (case parseLoop metas pf args [] (newClause False) Map.empty of
        Inl err \<Rightarrow> Inl err
      | Inr (clauses, current, global) \<Rightarrow>
          Inr (applyDefaults metas
                 (map (\<lambda>c. c\<lparr>Fields := global ++ Fields c\<rparr>) (clauses @ [current]))))"



section \<open>Suffix patterns (command.go)\<close>

text \<open>
  \<open>matchesBracePattern\<close>, called with both strings already in lower case. The first
  \<open>{\<close> and the first \<open>}\<close> delimit the options.
\<close>

definition matchesBracePattern :: "string \<Rightarrow> string \<Rightarrow> bool" where
  "matchesBracePattern filename pattern =
     (let start = indexChar pattern CHR ''{''; end = indexChar pattern CHR ''}'' in
      if start = -1 \<or> end = -1 \<or> start \<ge> end then False
      else
        (let prefix = take (nat start) pattern;
             suffix = drop (nat (end + 1)) pattern;
             options = splitOn CHR '','' (take (nat (end - (start + 1))) (drop (nat (start + 1)) pattern))
         in list_ex (\<lambda>option. hasSuffix filename (prefix @ trimSpace option @ suffix)) options))"

text \<open>
  \<open>matchesSuffixPattern\<close>. The parameter \<open>pathMatch\<close> is \<open>filepath.Match\<close> of the
  standard library, given the pattern and the name; \<open>None\<close> is its error for a malformed
  pattern.
\<close>

definition matchesSuffixPattern ::
  "(string \<Rightarrow> string \<Rightarrow> bool option) \<Rightarrow> string \<Rightarrow> string \<Rightarrow> bool" where
  "matchesSuffixPattern pathMatch filename pattern =
     (let filename' = toLower filename; pattern' = toLower pattern in
      if containsChar pattern' CHR ''{'' \<and> containsChar pattern' CHR ''}'' then
        matchesBracePattern filename' pattern'
      else if list_ex (\<lambda>c. c \<in> set ''*?[]'') pattern' then
        (case pathMatch (''*'' @ pattern') filename' of
           None \<Rightarrow> hasSuffix filename' pattern'
         | Some matched \<Rightarrow> matched)
      else hasSuffix filename' pattern')"

text \<open>
  A model of \<open>filepath.Match\<close> for the closed examples, written from the pattern grammar of
  its documentation, on bytes and with \<open>/\<close> as the separator: \<open>*\<close> matches any sequence
  of non-separator characters, \<open>?\<close> one non-separator character, \<open>[...]\<close> (negated by a
  leading \<open>^\<close>) one character of a non-empty list of characters and ranges \<open>lo-hi\<close>, a
  backslash quotes the next character, and a pattern that does not follow the grammar is
  malformed.
\<close>

datatype globTerm =
  GlobStar | GlobAny | GlobClass bool "(char \<times> char) list" | GlobChar char

text \<open>\<open>getEsc\<close>: one character of a class, with what follows it, which must not be
  empty.\<close>

definition getEsc :: "string \<Rightarrow> (char \<times> string) option" where
  "getEsc chunk =
     (case chunk of
        [] \<Rightarrow> None
      | c # cs \<Rightarrow>
          if c = CHR ''-'' \<or> c = CHR '']'' then None
          else if c = CHR 0x5C then
            (case cs of [] \<Rightarrow> None | d # ds \<Rightarrow> if ds = [] then None else Some (d, ds))
          else if cs = [] then None else Some (c, cs))"

text \<open>The ranges of a class up to its closing bracket; \<open>n\<close> bounds the number of steps by
  the length of the pattern.\<close>

fun globRanges :: "nat \<Rightarrow> string \<Rightarrow> (char \<times> char) list \<Rightarrow> ((char \<times> char) list \<times> string) option" where
  "globRanges 0 chunk ranges = None"
| "globRanges (Suc n) chunk ranges =
     (if chunk \<noteq> [] \<and> hd chunk = CHR '']'' \<and> ranges \<noteq> [] then Some (ranges, tl chunk)
      else
        (case getEsc chunk of
           None \<Rightarrow> None
         | Some (lo, chunk1) \<Rightarrow>
             (if hd chunk1 = CHR ''-'' then
                (case getEsc (tl chunk1) of
                   None \<Rightarrow> None
                 | Some (hi, chunk2) \<Rightarrow> globRanges n chunk2 (ranges @ [(lo, hi)]))
              else globRanges n chunk1 (ranges @ [(lo, lo)]))))"

fun globTerms :: "nat \<Rightarrow> string \<Rightarrow> globTerm list option" where
  "globTerms 0 pattern = (if pattern = [] then Some [] else None)"
| "globTerms (Suc n) [] = Some []"
| "globTerms (Suc n) (c # cs) =
     (if c = CHR ''*'' then map_option (\<lambda>ts. GlobStar # ts) (globTerms n cs)
      else if c = CHR ''?'' then map_option (\<lambda>ts. GlobAny # ts) (globTerms n cs)
      else if c = CHR ''['' then
        (let negated = (cs \<noteq> [] \<and> hd cs = CHR ''^'');
             body = (if negated then tl cs else cs) in
         case globRanges (Suc (length body)) body [] of
           None \<Rightarrow> None
         | Some (ranges, rest) \<Rightarrow>
             map_option (\<lambda>ts. GlobClass negated ranges # ts) (globTerms n rest))
      else if c = CHR 0x5C then
        (case cs of
           [] \<Rightarrow> None
         | d # ds \<Rightarrow> map_option (\<lambda>ts. GlobChar d # ts) (globTerms n ds))
      else map_option (\<lambda>ts. GlobChar c # ts) (globTerms n cs))"

fun globMatches :: "globTerm list \<Rightarrow> string \<Rightarrow> bool" where
  "globMatches [] name = (name = [])"
| "globMatches (GlobStar # ts) [] = globMatches ts []"
| "globMatches (GlobStar # ts) (c # cs) =
     (globMatches ts (c # cs) \<or> (c \<noteq> CHR ''/'' \<and> globMatches (GlobStar # ts) cs))"
| "globMatches (t # ts) [] = False"
| "globMatches (GlobAny # ts) (c # cs) = (c \<noteq> CHR ''/'' \<and> globMatches ts cs)"
| "globMatches (GlobClass negated ranges # ts) (c # cs) =
     ((list_ex (\<lambda>(lo, hi). lo \<le> c \<and> c \<le> hi) ranges \<noteq> negated) \<and> globMatches ts cs)"
| "globMatches (GlobChar x # ts) (c # cs) = (c = x \<and> globMatches ts cs)"

definition globMatch :: "string \<Rightarrow> string \<Rightarrow> bool option" where
  "globMatch pattern name = map_option (\<lambda>ts. globMatches ts name) (globTerms (length pattern) pattern)"

section \<open>The completion analyzer (command.go)\<close>

text \<open>
  What the functions of this section read from the machine: \<open>openLines\<close> is \<open>os.Open\<close>
  followed by a \<open>bufio.Scanner\<close> (\<open>Inl\<close> the error of \<open>os.Open\<close>, \<open>Inr\<close> the lines the
  scanner yields, none for an empty file); \<open>readDir\<close> is \<open>os.ReadDir\<close> (\<open>None\<close> its
  error, else the entries with their names and whether they are directories); the other four
  are \<open>filepath.Dir\<close>, \<open>filepath.Base\<close>, \<open>filepath.Join\<close> and \<open>filepath.Match\<close>.
\<close>

record system =
  openLines :: "string \<Rightarrow> string + string list"
  readDir :: "string \<Rightarrow> (string \<times> bool) list option"
  pathDir :: "string \<Rightarrow> string"
  pathBase :: "string \<Rightarrow> string"
  pathJoin :: "string \<Rightarrow> string \<Rightarrow> string"
  pathMatch :: "string \<Rightarrow> string \<Rightarrow> bool option"

text \<open>The two caches of a command, \<open>fieldCache\<close> and \<open>contentCache\<close>; \<open>NewCommand\<close>
  makes them empty and sets the scan depth to 100.\<close>

record caches =
  fieldCache :: "string \<Rightarrow> string list option"
  contentCache :: "string \<Rightarrow> (string \<Rightarrow> string list option) option"

definition newCaches :: caches where
  "newCaches = \<lparr>fieldCache = Map.empty, contentCache = Map.empty\<rparr>"

definition defaultScanDepth :: nat where
  "defaultScanDepth = 100"

datatype panic = IndexOutOfRange

text \<open>An index expression \<open>xs[i]\<close> with a Go \<open>int\<close>: outside the slice it panics. The
  indices below are far from the bounds of a 64-bit \<open>int\<close>, so the arithmetic on them is that
  of the integers.\<close>

definition goIndex :: "'a list \<Rightarrow> int \<Rightarrow> panic + 'a" where
  "goIndex xs i = (if 0 \<le> i \<and> i < int (length xs) then Inr (xs ! nat i) else Inl IndexOutOfRange)"

datatype CompletionType =
  CompletionFlag | CompletionField | CompletionContent | CompletionFile | CompletionMultiArg
| CompletionEnum

text \<open>\<open>CompletionContext\<close>; its fields \<open>Type\<close>, \<open>ArgumentSpec\<close> and \<open>FieldMeta\<close> are
  \<open>CtxType\<close>, \<open>CtxArgumentSpec\<close> and \<open>CtxFieldMeta\<close> here, and a \<open>nil\<close> pointer is
  \<open>None\<close>.\<close>

record 'n CompletionContext =
  CtxType :: CompletionType
  Current :: string
  TSVFile :: string
  FieldName :: string
  ArgumentIndex :: int
  CtxArgumentSpec :: "ArgumentSpec option"
  CtxFieldMeta :: "'n FieldMeta option"

text \<open>\<open>findTSVFile\<close>: the loop over the arguments, with \<open>prev\<close> the argument before the
  current one (\<open>args[i-1]\<close>, read only when \<open>i > 0\<close>).\<close>

definition isTabular :: "string \<Rightarrow> bool" where
  "isTabular arg = (hasSuffix arg ''.tsv'' \<or> hasSuffix arg ''.csv'')"

fun findTSVFileLoop :: "string option \<Rightarrow> string list \<Rightarrow> string" where
  "findTSVFileLoop prev [] = []"
| "findTSVFileLoop prev (arg # rest) =
     (if (case prev of None \<Rightarrow> False
          | Some p \<Rightarrow> (p = ''-argv'' \<or> hasSuffix p ''-file'') \<and> isTabular arg)
      then arg
      else if isTabular arg \<and> \<not> hasPrefix arg ''-'' \<and>
              (case prev of None \<Rightarrow> True
               | Some p \<Rightarrow> \<not> hasPrefix p ''-'' \<or> p = ''-'' \<or> p = ''+'')
      then arg
      else findTSVFileLoop (Some arg) rest)"

definition findTSVFile :: "string list \<Rightarrow> string" where
  "findTSVFile args = findTSVFileLoop None args"

text \<open>\<open>findLastFlag\<close>: the position is first brought down to the length of the vector, then
  the loop runs from \<open>pos - 1\<close> down to \<open>0\<close>.\<close>

function findLastFlagLoop ::
  "'n FieldMeta list \<Rightarrow> string list \<Rightarrow> int \<Rightarrow> panic + (int \<times> 'n FieldMeta option)" where
  "findLastFlagLoop metas args i =
     (if i \<ge> 0 then
        (if i \<ge> int (length args) then findLastFlagLoop metas args (i - 1)
         else
           (case goIndex args i of
              Inl p \<Rightarrow> Inl p
            | Inr flagArg \<Rightarrow>
                if hasPrefix flagArg ''-'' \<or> hasPrefix flagArg ''+'' then
                  (if hasPrefix flagArg ''+'' \<and> length flagArg > 1 then
                     (case findField metas (''-'' @ tl flagArg) of
                        Some f \<Rightarrow> Inr (i, Some f) | None \<Rightarrow> Inr (-1, None))
                   else if hasPrefix flagArg ''-'' \<and> length flagArg > 1 then
                     (case findField metas flagArg of
                        Some f \<Rightarrow> Inr (i, Some f) | None \<Rightarrow> Inr (-1, None))
                   else Inr (-1, None))
                else findLastFlagLoop metas args (i - 1)))
      else Inr (-1, None))"
  by pat_completeness auto
termination
  by (relation "measure (\<lambda>(metas, args, i). nat (i + 1))") auto

declare findLastFlagLoop.simps [simp del]

definition findLastFlag ::
  "'n FieldMeta list \<Rightarrow> string list \<Rightarrow> int \<Rightarrow> panic + (int \<times> 'n FieldMeta option)" where
  "findLastFlag metas args pos =
     (let maxIndex = int (length args) - 1;
          pos' = (if pos > maxIndex then maxIndex + 1 else pos)
      in findLastFlagLoop metas args (pos' - 1))"

definition shouldUseBareFileCompletion :: "string list \<Rightarrow> int \<Rightarrow> panic + bool" where
  "shouldUseBareFileCompletion args pos =
     (if pos = 0 then Inr True
      else if pos > 0 \<and> pos - 1 < int (length args) then
        (case goIndex args (pos - 1) of
           Inl p \<Rightarrow> Inl p
         | Inr prev \<Rightarrow>
             if prev = ''+'' \<or> prev = ''-'' \<or> (\<not> hasPrefix prev ''-'' \<and> \<not> hasPrefix prev ''+'')
             then Inr True else Inr False)
      else Inr False)"

text \<open>The first field called \<open>Argv\<close>, for a bare file argument.\<close>

definition argvField :: "'n FieldMeta list \<Rightarrow> 'n FieldMeta option" where
  "argvField metas = List.find (\<lambda>f. Name f = ''Argv'') metas"

definition emptyContext :: "'n CompletionContext" where
  "emptyContext =
     \<lparr>CtxType = CompletionFile, Current = [], TSVFile = [], FieldName = [], ArgumentIndex = 0,
      CtxArgumentSpec = None, CtxFieldMeta = None\<rparr>"

text \<open>The last part of \<open>analyzeCompletionContext\<close>, once a governing switch is found at
  \<open>flagPos\<close>: the classification by the kind of the switch and the index of the argument.\<close>

definition classifyArgument ::
  "'n CompletionContext \<Rightarrow> string list \<Rightarrow> int \<Rightarrow> int \<Rightarrow> 'n FieldMeta
     \<Rightarrow> panic + 'n CompletionContext" where
  "classifyArgument context args pos flagPos fieldMeta =
     (let argIndex = pos - flagPos - 1;
          context1 = context\<lparr>CtxFieldMeta := Some fieldMeta\<rparr> in
      case Type fieldMeta of
        FieldTypeField \<Rightarrow>
          Inr (context1\<lparr>CtxType := (if argIndex = 0 then CompletionField else CompletionFile)\<rparr>)
      | FieldTypeString \<Rightarrow>
          Inr (context1\<lparr>CtxType :=
                 (if argIndex = 0 \<and> length (Enum fieldMeta) > 0 then CompletionEnum
                  else CompletionFile)\<rparr>)
      | FieldTypeMulti \<Rightarrow>
          (if argIndex \<ge> 0 \<and> argIndex < int (length (Args fieldMeta)) then
             (case goIndex (Args fieldMeta) argIndex of
                Inl p \<Rightarrow> Inl p
              | Inr spec \<Rightarrow>
                  (let context2 = context1\<lparr>CtxType := CompletionMultiArg,
                                           ArgumentIndex := argIndex,
                                           CtxArgumentSpec := Some spec\<rparr> in
                   if argIndex > 0 then
                     (case goIndex (Args fieldMeta) (argIndex - 1) of
                        Inl p \<Rightarrow> Inl p
                      | Inr before \<Rightarrow>
                          if ArgType before = ArgumentTypeField then
                            (if flagPos + argIndex < int (length args) then
                               (case goIndex args (flagPos + argIndex) of
                                  Inl p \<Rightarrow> Inl p
                                | Inr name \<Rightarrow> Inr (context2\<lparr>FieldName := name\<rparr>))
                             else Inr context2)
                          else Inr context2)
                   else Inr context2))
           else Inr (context1\<lparr>CtxType := CompletionFile\<rparr>))
      | _ \<Rightarrow> Inr (context1\<lparr>CtxType := CompletionFile\<rparr>))"

definition analyzeCompletionContext ::
  "'n FieldMeta list \<Rightarrow> string list \<Rightarrow> int \<Rightarrow> panic + 'n CompletionContext" where
  "analyzeCompletionContext metas args pos =
     (case (if pos < int (length args) then goIndex args pos else Inr []) of
        Inl p \<Rightarrow> Inl p
      | Inr current \<Rightarrow>
          (let context = emptyContext\<lparr>Current := current\<rparr> in
           if hasPrefix current ''-'' \<or> hasPrefix current ''+'' then
             Inr (context\<lparr>CtxType := CompletionFlag\<rparr>)
           else
             (let context1 = context\<lparr>TSVFile := findTSVFile args\<rparr> in
              case findLastFlag metas args pos of
                Inl p \<Rightarrow> Inl p
              | Inr (flagPos, None) \<Rightarrow>
                  (case shouldUseBareFileCompletion args pos of
                     Inl p \<Rightarrow> Inl p
                   | Inr bare \<Rightarrow>
                       (if bare then
                          (case argvField metas of
                             Some f \<Rightarrow> Inr (context1\<lparr>CtxFieldMeta := Some f,
                                                     CtxType := CompletionFile\<rparr>)
                           | None \<Rightarrow> Inr (context1\<lparr>CtxType := CompletionFile\<rparr>))
                        else Inr (context1\<lparr>CtxType := CompletionFile\<rparr>)))
              | Inr (flagPos, Some fieldMeta) \<Rightarrow>
                  classifyArgument context1 args pos flagPos fieldMeta)))"

subsection \<open>Reading the data file\<close>

definition isAlnum :: "char \<Rightarrow> bool" where
  "isAlnum c = (isLower c \<or> isUpper c \<or> isDigit c)"

definition parseTSVHeader :: "string \<Rightarrow> string list" where
  "parseTSVHeader header =
     (let header' = dropWhile (\<lambda>r. \<not> isAlnum r) header;
          fs = (if containsChar header' CHR 0x09 then splitOn CHR 0x09 header'
                else splitOn CHR '','' header')
      in filter (\<lambda>f. f \<noteq> []) (map trimSpace fs))"

text \<open>\<open>getFields\<close> returns the field names or the error, with the caches as it leaves
  them.\<close>

definition getFields :: "system \<Rightarrow> caches \<Rightarrow> string \<Rightarrow> (string + string list) \<times> caches" where
  "getFields sys st filename =
     (case fieldCache st filename of
        Some fs \<Rightarrow> (Inr fs, st)
      | None \<Rightarrow>
          (case openLines sys filename of
             Inl err \<Rightarrow> (Inl (''opening file '' @ filename @ '': '' @ err), st)
           | Inr [] \<Rightarrow> (Inl (''file '' @ filename @ '' is empty''), st)
           | Inr (headerLine # rest) \<Rightarrow>
               (let fs = parseTSVHeader headerLine
                in (Inr fs, st\<lparr>fieldCache := (fieldCache st)(filename \<mapsto> fs)\<rparr>))))"

definition completeField ::
  "system \<Rightarrow> caches \<Rightarrow> string \<Rightarrow> string \<Rightarrow> (string + string list) \<times> caches" where
  "completeField sys st filename partial =
     (case getFields sys st filename of
        (Inl err, st') \<Rightarrow> (Inl err, st')
      | (Inr fs, st') \<Rightarrow>
          (Inr (filter (\<lambda>field. hasPrefix (toLower field) (toLower partial)) fs), st'))"

text \<open>The index of the first field of the header with the given name (\<open>fieldIndex\<close>,
  \<open>None\<close> for \<open>-1\<close>).\<close>

fun fieldIndexOf :: "string list \<Rightarrow> string \<Rightarrow> nat option" where
  "fieldIndexOf [] fieldName = None"
| "fieldIndexOf (field # rest) fieldName =
     (if field = fieldName then Some 0 else map_option Suc (fieldIndexOf rest fieldName))"

text \<open>The value of the field in one data line, if the line has one: the line is split at
  tabs, or at commas when that gives too few parts, and the part is trimmed.\<close>

definition lineValue :: "nat \<Rightarrow> string \<Rightarrow> string option" where
  "lineValue fieldIndex line =
     (let parts0 = splitOn CHR 0x09 line;
          parts = (if length parts0 \<le> fieldIndex then splitOn CHR '','' line else parts0)
      in if fieldIndex < length parts then
           (let v = trimSpace (parts ! fieldIndex) in if v \<noteq> [] then Some v else None)
         else None)"

text \<open>The scan of the data lines: \<open>values\<close> is the set of values seen so far (the keys of
  the map \<open>values\<close>, in the order they were first seen), \<open>linesScanned\<close> the count.\<close>

fun scanLines :: "nat \<Rightarrow> nat \<Rightarrow> nat \<Rightarrow> string list \<Rightarrow> string list \<Rightarrow> string list" where
  "scanLines fieldIndex scanDepth linesScanned [] values = values"
| "scanLines fieldIndex scanDepth linesScanned (line # rest) values =
     (if linesScanned < scanDepth then
        scanLines fieldIndex scanDepth (Suc linesScanned) rest
          (case lineValue fieldIndex line of
             Some v \<Rightarrow> (if v \<in> set values then values else values @ [v])
           | None \<Rightarrow> values)
      else values)"

text \<open>
  The "simple sort" of \<open>getFieldValues\<close>. For each index \<open>i\<close> the inner loop compares
  \<open>result[i]\<close> with every later element and swaps when it is greater: \<open>exchangeMin x ys\<close> is
  that inner loop, with \<open>x\<close> for \<open>result[i]\<close> and \<open>ys\<close> for the elements after it, and returns
  what it leaves at index \<open>i\<close> and after it. Go compares strings byte by byte, which is the
  lexicographic order of \<open>string\<close>.
\<close>

fun exchangeMin :: "string \<Rightarrow> string list \<Rightarrow> string \<times> string list" where
  "exchangeMin x [] = (x, [])"
| "exchangeMin x (y # ys) =
     (if x > y then (case exchangeMin y ys of (m, r) \<Rightarrow> (m, x # r))
      else (case exchangeMin x ys of (m, r) \<Rightarrow> (m, y # r)))"

lemma exchangeMin_length: "exchangeMin x ys = (m, r) \<Longrightarrow> length r = length ys"
proof (induction ys arbitrary: x m r)
  case Nil
  then show ?case by simp
next
  case (Cons y ys)
  show ?case
  proof (cases "x > y")
    case True
    obtain m' r' where e: "exchangeMin y ys = (m', r')" by (cases "exchangeMin y ys") auto
    with Cons.prems True have "r = x # r'" by simp
    with Cons.IH[OF e] show ?thesis by simp
  next
    case False
    obtain m' r' where e: "exchangeMin x ys = (m', r')" by (cases "exchangeMin x ys") auto
    with Cons.prems False have "r = y # r'" by simp
    with Cons.IH[OF e] show ?thesis by simp
  qed
qed

function exchangeSort :: "string list \<Rightarrow> string list" where
  "exchangeSort [] = []"
| "exchangeSort (x # xs) = (case exchangeMin x xs of (m, r) \<Rightarrow> m # exchangeSort r)"
  by pat_completeness auto
termination
  by (relation "measure length") (auto dest: exchangeMin_length[OF sym])

text \<open>
  \<open>getFieldValues\<close>. The values are sorted from the order in which the loop over the map
  yields them; Go leaves that order open, and the model takes the order of first appearance
  (the sorted result does not depend on it, see \<open>exchangeSort_sorted_list_of_set\<close> below).
\<close>

definition getFieldValues ::
  "system \<Rightarrow> nat \<Rightarrow> caches \<Rightarrow> string \<Rightarrow> string \<Rightarrow> (string + string list) \<times> caches" where
  "getFieldValues sys scanDepth st filename fieldName =
     (case (case contentCache st filename of
              Some fileCache \<Rightarrow> fileCache fieldName
            | None \<Rightarrow> None) of
        Some vs \<Rightarrow> (Inr vs, st)
      | None \<Rightarrow>
          (let st1 = (if contentCache st filename = None
                      then st\<lparr>contentCache := (contentCache st)(filename \<mapsto> Map.empty)\<rparr>
                      else st) in
           case openLines sys filename of
             Inl err \<Rightarrow> (Inl (''opening file '' @ filename @ '': '' @ err), st1)
           | Inr [] \<Rightarrow> (Inl (''file '' @ filename @ '' is empty''), st1)
           | Inr (headerLine # rest) \<Rightarrow>
               (case fieldIndexOf (parseTSVHeader headerLine) fieldName of
                  None \<Rightarrow> (Inr [], st1)
                | Some fieldIndex \<Rightarrow>
                    (let result = exchangeSort (scanLines fieldIndex scanDepth 0 rest []);
                         fileCache = (case contentCache st1 filename of
                                        Some fc \<Rightarrow> fc | None \<Rightarrow> Map.empty)
                     in (Inr result,
                         st1\<lparr>contentCache :=
                               (contentCache st1)(filename \<mapsto> fileCache(fieldName \<mapsto> result))\<rparr>)))))"

definition completeContent ::
  "system \<Rightarrow> nat \<Rightarrow> caches \<Rightarrow> string \<Rightarrow> string \<Rightarrow> string
     \<Rightarrow> (string + string list) \<times> caches" where
  "completeContent sys scanDepth st filename fieldName partial =
     (case getFieldValues sys scanDepth st filename fieldName of
        (Inl err, st') \<Rightarrow> (Inr [], st')
      | (Inr vs, st') \<Rightarrow>
          (Inr (filter (\<lambda>v. hasPrefix (toLower v) (toLower partial)) vs), st'))"

subsection \<open>Candidates\<close>

definition completeFlags :: "'n FieldMeta list \<Rightarrow> string \<Rightarrow> string list" where
  "completeFlags metas partial =
     concat (map (\<lambda>field.
                (let flag = parseFlagName (Name field); plusFlag = ''+'' @ tl flag in
                 (if hasPrefix (toLower flag) (toLower partial) then [flag] else []) @
                 (if hasPrefix (toLower plusFlag) (toLower partial) then [plusFlag] else [])))
             metas)
     @ filter (\<lambda>flag. hasPrefix (toLower flag) (toLower partial))
         [''-help'', ''-man'', ''-complete'', ''-bash-completion'']"

definition completeEnum :: "'n FieldMeta option \<Rightarrow> string \<Rightarrow> string list" where
  "completeEnum fieldMeta partial =
     (case fieldMeta of
        None \<Rightarrow> []
      | Some f \<Rightarrow> filter (\<lambda>enumValue. hasPrefix (toLower enumValue) (toLower partial)) (Enum f))"

text \<open>\<open>completeFilesWithSuffix\<close>: the entries of the directory that continue the partial
  name, data files first, then the other files, then the directories; the files are filtered by
  the suffix pattern of the field, if it has one.\<close>

definition completeFilesWithSuffix ::
  "system \<Rightarrow> string \<Rightarrow> 'n FieldMeta option \<Rightarrow> string + string list" where
  "completeFilesWithSuffix sys partial fieldMeta =
     (let (dir, pattern) =
            (if hasSuffix partial ''/'' then (partial, [])
             else if containsChar partial CHR ''/'' then (pathDir sys partial, pathBase sys partial)
             else (''.'', partial)) in
      case readDir sys dir of
        None \<Rightarrow> Inr []
      | Some entries \<Rightarrow>
          (let shown = filter (\<lambda>(name, isDir).
                          \<not> (hasPrefix name ''.'' \<and> \<not> hasPrefix pattern ''.'') \<and>
                          hasPrefix (toLower name) (toLower pattern)) entries;
               fullPath = (\<lambda>name. if dir = ''.'' then name else pathJoin sys dir name);
               files = filter (\<lambda>(name, isDir). \<not> isDir \<and>
                          (case fieldMeta of
                             None \<Rightarrow> True
                           | Some f \<Rightarrow> Suffix f = [] \<or>
                               matchesSuffixPattern (pathMatch sys) name (Suffix f))) shown;
               tsvFiles = filter (\<lambda>(name, isDir). hasSuffix (toLower name) ''.tsv'') files;
               otherFiles = filter (\<lambda>(name, isDir). \<not> hasSuffix (toLower name) ''.tsv'') files;
               directories = filter (\<lambda>(name, isDir). isDir) shown
           in Inr (map (\<lambda>(name, isDir). fullPath name) tsvFiles
                   @ map (\<lambda>(name, isDir). fullPath name) otherFiles
                   @ map (\<lambda>(name, isDir). fullPath name @ ''/'') directories)))"

definition completeMultiArgument ::
  "system \<Rightarrow> nat \<Rightarrow> caches \<Rightarrow> 'n CompletionContext \<Rightarrow> (string + string list) \<times> caches" where
  "completeMultiArgument sys scanDepth st context =
     (case CtxArgumentSpec context of
        None \<Rightarrow> (completeFilesWithSuffix sys (Current context) (None :: 'n FieldMeta option), st)
      | Some spec \<Rightarrow>
          (case ArgType spec of
             ArgumentTypeField \<Rightarrow>
               (if TSVFile context \<noteq> [] then
                  completeField sys st (TSVFile context) (Current context)
                else (Inr [], st))
           | ArgumentTypeContent \<Rightarrow>
               (if TSVFile context \<noteq> [] \<and> FieldName context \<noteq> [] then
                  completeContent sys scanDepth st (TSVFile context) (FieldName context)
                    (Current context)
                else (Inr [], st))
           | ArgumentTypeFile \<Rightarrow>
               (completeFilesWithSuffix sys (Current context) (None :: 'n FieldMeta option), st)
           | _ \<Rightarrow> (Inr [], st)))"

text \<open>\<open>complete\<close>: a panic, or the candidates or the error it returns, with the caches.\<close>

definition complete ::
  "'n FieldMeta list \<Rightarrow> system \<Rightarrow> nat \<Rightarrow> caches \<Rightarrow> string list \<Rightarrow> int
     \<Rightarrow> panic + ((string + string list) \<times> caches)" where
  "complete metas sys scanDepth st args pos =
     (case analyzeCompletionContext metas args pos of
        Inl p \<Rightarrow> Inl p
      | Inr context \<Rightarrow>
          Inr (case CtxType context of
                 CompletionFlag \<Rightarrow> (Inr (completeFlags metas (Current context)), st)
               | CompletionField \<Rightarrow> completeField sys st (TSVFile context) (Current context)
               | CompletionContent \<Rightarrow>
                   completeContent sys scanDepth st (TSVFile context) (FieldName context)
                     (Current context)
               | CompletionMultiArg \<Rightarrow> completeMultiArgument sys scanDepth st context
               | CompletionEnum \<Rightarrow>
                   (Inr (completeEnum (CtxFieldMeta context) (Current context)), st)
               | CompletionFile \<Rightarrow>
                   (completeFilesWithSuffix sys (Current context) (CtxFieldMeta context), st)))"

section \<open>Configurations of the repository\<close>

text \<open>A stand-in for \<open>strconv.ParseFloat\<close> in the closed examples: it reads an unsigned
  decimal integer and rejects everything else.\<close>

definition parseDecimal :: "string \<Rightarrow> string + int" where
  "parseDecimal s =
     (if s \<noteq> [] \<and> (\<forall>c \<in> set s. isDigit c)
      then Inr (foldl (\<lambda>n c. 10 * n + (int (of_char c) - 48)) 0 s)
      else Inl (''strconv.ParseFloat: parsing '' @ [CHR 0x22] @ s @ [CHR 0x22] @ '': invalid syntax''))"

text \<open>The fields \<open>Y\<close> and \<open>Right\<close> of \<open>ChartConfig\<close> with their tags: an accumulating
  field of clause scope and a flag of clause scope.\<close>

definition yRightTags :: "(string \<times> string) list" where
  "yRightTags =
     [(''Y'', ''field,local,list,help=Use field for Y axis''),
      (''Right'', ''flag,local,last,help=Use right-hand scale'')]"

definition yRightConfig :: "'n FieldMeta list" where
  "yRightConfig =
     [\<lparr>Name = ''Y'', Type = FieldTypeField, Scope = ScopeLocal, Mode = ModeList, Args = [],
       DefaultValue = None, Help = ''Use field for Y axis'', Required = False, Complete = [],
       Suffix = [], Enum = []\<rparr>,
      \<lparr>Name = ''Right'', Type = FieldTypeFlag, Scope = ScopeLocal, Mode = ModeLast, Args = [],
       DefaultValue = None, Help = ''Use right-hand scale'', Required = False, Complete = [],
       Suffix = [], Enum = []\<rparr>]"

text \<open>\<open>TestCompletionConfig\<close> of the tests, as tags and as the descriptors \<open>NewCommand\<close>
  makes of them.\<close>

definition testCompletionTags :: "(string \<times> string) list" where
  "testCompletionTags =
     [(''Name'', ''string,global,last,help=Name field''),
      (''Type'', ''string,global,last,help=Type field,enum=bar:line:area,default=bar''),
      (''Field'', ''field,global,last,help=Field name''),
      (''File'', ''file,global,last,help=File path,suffix=.tsv''),
      (''DataFile'', ''file,global,last,help=Data file,suffix=.[tc]sv''),
      (''Config'', ''file,global,last,help=Config file,suffix=.{json,yaml}''),
      (''Match'', ''multi,local,list,args=field:content,help=Match conditions'')]"

definition testCompletionConfig :: "'n FieldMeta list" where
  "testCompletionConfig =
     [\<lparr>Name = ''Name'', Type = FieldTypeString, Scope = ScopeGlobal, Mode = ModeLast, Args = [],
       DefaultValue = None, Help = ''Name field'', Required = False, Complete = [],
       Suffix = [], Enum = []\<rparr>,
      \<lparr>Name = ''Type'', Type = FieldTypeString, Scope = ScopeGlobal, Mode = ModeLast, Args = [],
       DefaultValue = Some (VString ''bar''), Help = ''Type field'', Required = False,
       Complete = [], Suffix = [], Enum = [''bar'', ''line'', ''area'']\<rparr>,
      \<lparr>Name = ''Field'', Type = FieldTypeField, Scope = ScopeGlobal, Mode = ModeLast, Args = [],
       DefaultValue = None, Help = ''Field name'', Required = False, Complete = [],
       Suffix = [], Enum = []\<rparr>,
      \<lparr>Name = ''File'', Type = FieldTypeFile, Scope = ScopeGlobal, Mode = ModeLast, Args = [],
       DefaultValue = None, Help = ''File path'', Required = False, Complete = [],
       Suffix = ''.tsv'', Enum = []\<rparr>,
      \<lparr>Name = ''DataFile'', Type = FieldTypeFile, Scope = ScopeGlobal, Mode = ModeLast, Args = [],
       DefaultValue = None, Help = ''Data file'', Required = False, Complete = [],
       Suffix = ''.[tc]sv'', Enum = []\<rparr>,
      \<lparr>Name = ''Config'', Type = FieldTypeFile, Scope = ScopeGlobal, Mode = ModeLast, Args = [],
       DefaultValue = None, Help = ''Config file'', Required = False, Complete = [],
       Suffix = ''.{json,yaml}'', Enum = []\<rparr>,
      \<lparr>Name = ''Match'', Type = FieldTypeMulti, Scope = ScopeLocal, Mode = ModeList,
       Args = [\<lparr>ArgName = ''field'', ArgType = ArgumentTypeField\<rparr>,
               \<lparr>ArgName = ''content'', ArgType = ArgumentTypeContent\<rparr>],
       DefaultValue = None, Help = ''Match conditions'', Required = False, Complete = [],
       Suffix = [], Enum = []\<rparr>]"

text \<open>
  A machine for the closed examples. \<open>filepath.Dir\<close>, \<open>filepath.Base\<close> and
  \<open>filepath.Join\<close> are written for paths that \<open>filepath.Clean\<close> leaves as they are; no
  directory can be read, one tab-separated file, one comma-separated file and one empty file can
  be opened, and any other file is missing. \<open>noFiles\<close> is the same machine after the files
  are gone.
\<close>

definition simpleDir :: "string \<Rightarrow> string" where
  "simpleDir p =
     (let d = rev (tl (dropWhile (\<lambda>c. c \<noteq> CHR ''/'') (rev p))) in
      if CHR ''/'' \<notin> set p then ''.'' else if d = [] then ''/'' else d)"

definition simpleBase :: "string \<Rightarrow> string" where
  "simpleBase p = rev (takeWhile (\<lambda>c. c \<noteq> CHR ''/'') (rev p))"

definition simpleJoin :: "string \<Rightarrow> string \<Rightarrow> string" where
  "simpleJoin d n = (if hasSuffix d ''/'' then d @ n else d @ ''/'' @ n)"

definition sampleFiles :: system where
  "sampleFiles =
     \<lparr>openLines = (\<lambda>f.
        if f = ''data.tsv'' then
          Inr [''host'' @ [CHR 0x09] @ ''cpu'',
               ''web2'' @ [CHR 0x09] @ ''7'',
               ''db1'' @ [CHR 0x09] @ ''3'',
               ''Web3'' @ [CHR 0x09] @ ''7'',
               ''web2'' @ [CHR 0x09] @ ''9'',
               ''web1'' @ [CHR 0x09] @ ''5'']
        else if f = ''data.csv'' then Inr [''host,cpu'', ''web2,7'', ''web1,5'']
        else if f = ''empty.tsv'' then Inr []
        else Inl (''open '' @ f @ '': no such file or directory'')),
      readDir = (\<lambda>d. None),
      pathDir = simpleDir, pathBase = simpleBase, pathJoin = simpleJoin,
      pathMatch = globMatch\<rparr>"

definition noFiles :: system where
  "noFiles = sampleFiles\<lparr>openLines := (\<lambda>f. Inl (''open '' @ f @ '': no such file or directory''))\<rparr>"

section \<open>What the specification says, as definitions\<close>

text \<open>The number of tokens a switch takes after its name (section 4.2 of the specification):
  none for a flag, one for each argument specification of a multi-argument switch, one
  otherwise.\<close>

definition switchArity :: "'n FieldMeta \<Rightarrow> nat" where
  "switchArity fieldMeta =
     (case Type fieldMeta of
        FieldTypeFlag \<Rightarrow> 0
      | FieldTypeMulti \<Rightarrow> length (Args fieldMeta)
      | _ \<Rightarrow> 1)"

text \<open>The separator tokens of an argument vector, in order: the tokens \<open>+\<close> and \<open>-\<close>
  that are not taken by a switch before them as one of its arguments.\<close>

fun separatorTokens :: "'n FieldMeta list \<Rightarrow> string list \<Rightarrow> string list" where
  "separatorTokens metas [] = []"
| "separatorTokens metas (arg # rest) =
     (if arg = ''+'' \<or> arg = ''-'' then arg # separatorTokens metas rest
      else if hasPrefix arg ''+'' \<or> hasPrefix arg ''-'' then
        (case findField metas (''-'' @ tl arg) of
           None \<Rightarrow> []
         | Some fieldMeta \<Rightarrow> separatorTokens metas (drop (switchArity fieldMeta) rest))
      else separatorTokens metas rest)"

text \<open>The negation mark on one parsed value: a flag has none, the map of a multi-argument
  switch gains the entry \<open>_negated\<close>, any other value is wrapped.\<close>

definition negationWrap :: "FieldType \<Rightarrow> 'n gvalue \<Rightarrow> 'n gvalue" where
  "negationWrap t v =
     (case t of
        FieldTypeFlag \<Rightarrow> v
      | FieldTypeMulti \<Rightarrow> (case v of VMap m \<Rightarrow> VMap (m(''_negated'' \<mapsto> VBool True)) | _ \<Rightarrow> v)
      | _ \<Rightarrow> VMap [''value'' \<mapsto> v, ''_negated'' \<mapsto> VBool True])"

text \<open>The negation mark on the value a switch has just stored: the value under its name in
  last mode, the last element of the list under its name in list mode.\<close>

definition markNegated :: "'n FieldMeta \<Rightarrow> 'n gmap \<Rightarrow> 'n gmap" where
  "markNegated fieldMeta target =
     (case target (Name fieldMeta) of
        None \<Rightarrow> target
      | Some v \<Rightarrow>
          (if Type fieldMeta = FieldTypeFlag then target
           else if Mode fieldMeta = ModeList then
             (case v of
                VList list \<Rightarrow>
                  target(Name fieldMeta \<mapsto>
                    VList (butlast list @ [negationWrap (Type fieldMeta) (last list)]))
              | _ \<Rightarrow> target)
           else target(Name fieldMeta \<mapsto> negationWrap (Type fieldMeta) v)))"

text \<open>The offence of the descriptor token at index \<open>i\<close>, if it is one (section 4.1): an
  unknown kind, scope or multiplicity at its position, an unknown key, or a value of
  \<open>required\<close> that is no boolean. An empty token is none.\<close>

definition offence :: "nat \<Rightarrow> string \<Rightarrow> string option" where
  "offence i p =
     (let part = trimSpace p in
      if part = [] then None
      else if containsChar part CHR ''='' then
        (let key = trimSpace (takeWhile (\<lambda>c. c \<noteq> CHR ''='') part);
             val = trimSpace (tl (dropWhile (\<lambda>c. c \<noteq> CHR ''='') part)) in
         if key = ''required'' then
           (if parseBool val = None then Some (''invalid boolean for required: '' @ val) else None)
         else if key \<in> set [''help'', ''default'', ''complete'', ''args'', ''suffix'', ''enum'']
         then None
         else Some (''unknown key in tag: '' @ key))
      else if i = 0 then
        (if part \<in> set [''string'', ''field'', ''file'', ''number'', ''flag'', ''multi''] then None
         else Some (''unknown field type: '' @ part))
      else if i = 1 then
        (if part \<in> set [''global'', ''local''] then None
         else Some (''unknown field scope: '' @ part))
      else if i = 2 then
        (if part \<in> set [''last'', ''list''] then None
         else Some (''unknown field mode: '' @ part))
      else None)"

fun firstOffence :: "nat \<Rightarrow> string list \<Rightarrow> string option" where
  "firstOffence i [] = None"
| "firstOffence i (p # ps) =
     (case offence i p of Some err \<Rightarrow> Some err | None \<Rightarrow> firstOffence (Suc i) ps)"

text \<open>The entry of the value cache for a file and a field.\<close>

definition contentLookup :: "caches \<Rightarrow> string \<Rightarrow> string \<Rightarrow> string list option" where
  "contentLookup st filename fieldName =
     (case contentCache st filename of Some fileCache \<Rightarrow> fileCache fieldName | None \<Rightarrow> None)"

section \<open>Evaluating the configurations\<close>

lemma parseFlagName_Y: "parseFlagName ''Y'' = ''-y''"
  by code_simp

lemma parseFlagName_Right: "parseFlagName ''Right'' = ''-right''"
  by code_simp

text \<open>The descriptors above are what \<open>reflectFields\<close> makes of the tags, whatever
  \<open>strconv.ParseFloat\<close> does.\<close>

lemma reflectFields_yRight: "reflectFields pf yRightTags = Inr yRightConfig"
  by (simp add: yRightTags_def yRightConfig_def parseFieldTag_def parseTagParts_def
      parseFieldTagPart_def trimSpace_def isSpace_def containsChar_def parseFieldType_def
      parseFieldScope_def parseFieldMode_def parseKeyValue_def splitN2_def initialMeta_def
      Let_def)

lemma reflectFields_testCompletion: "reflectFields pf testCompletionTags = Inr testCompletionConfig"
  by (simp add: testCompletionTags_def testCompletionConfig_def parseFieldTag_def
      parseTagParts_def parseFieldTagPart_def trimSpace_def isSpace_def containsChar_def
      parseFieldType_def parseFieldScope_def parseFieldMode_def parseKeyValue_def splitN2_def
      initialMeta_def parseEnumValues_def parseArgumentSpecs_def parseArgumentType_def
      parseDefaultValue_def Let_def)

section \<open>The clause parser: clauses and separators\<close>

lemma parse_yRight_example:
  "Parse yRightConfig pf [''-y'', ''cpu'', ''+'', ''-y'', ''disk'', ''-right''] =
     Inr [\<lparr>Fields = [''Y'' \<mapsto> VList [VString ''cpu'']], IsNegated = False\<rparr>,
          \<lparr>Fields = [''Y'' \<mapsto> VList [VString ''disk''], ''Right'' \<mapsto> VBool True],
           IsNegated = True\<rparr>]"
  by (simp add: Parse_def yRightConfig_def parseFlagName_Y parseFlagName_Right hasPrefix_def
      parseFlagWithNegation_def getTarget_def putTarget_def storeValue_def
      parseValueWithValidation_def parseValue_def newClause_def applyDefaults_def Let_def)

text \<open>A switch that parses consumes its name and as many tokens as its kind requires, and
  leaves the negation flag of the clause alone.\<close>

lemma parseFlagWithNegation_arity:
  "parseFlagWithNegation metas pf args clause global negated = Inr (n, c', g') \<Longrightarrow>
   \<exists>fm. findField metas (hd args) = Some fm \<and> n = Suc (switchArity fm) \<and> n \<le> length args \<and> IsNegated c' = IsNegated clause"
  by (cases args)
     (auto simp: parseFlagWithNegation_def Let_def switchArity_def putTarget_def Suc_le_eq
           split: if_splits option.splits FieldType.splits sum.splits)

lemma parseLoop_negated:
  "parseLoop metas pf args clauses current global = Inr (clauses', current', global') \<Longrightarrow>
   map IsNegated (clauses' @ [current']) =
     map IsNegated (clauses @ [current]) @ map (\<lambda>t. t = ''+'') (separatorTokens metas args)"
proof (induction metas pf args clauses current global rule: parseLoop.induct)
  case (1 metas pf clauses current global)
  then show ?case by simp
next
  case (2 metas pf arg rest clauses current global)
  show ?case
  proof (cases "arg = ''+'' \<or> arg = ''-''")
    case True
    with 2 show ?thesis by (auto simp: newClause_def)
  next
    case sep: False
    then have ne: "arg \<noteq> ''+''" "arg \<noteq> ''-''" by auto
    show ?thesis
    proof (cases "hasPrefix arg ''+''")
      case plus: True
      then have len: "length arg > 1" using sep by (cases arg; cases "tl arg") (auto simp: hasPrefix_def)
      from 2(8) ne plus len obtain n c1 g1 where
        pfn: "parseFlagWithNegation metas pf ((''-'' @ tl arg) # rest) current global True = Inr (n, c1, g1)"
        and rest: "parseLoop metas pf (drop n (arg # rest)) clauses c1 g1 = Inr (clauses', current', global')"
        by (auto split: sum.splits)
      from parseFlagWithNegation_arity[OF pfn] obtain fm where
        fm: "findField metas (''-'' @ tl arg) = Some fm" "n = Suc (switchArity fm)" "IsNegated c1 = IsNegated current"
        by auto
      from 2(3)[OF ne plus len pfn refl refl rest]
      have "map IsNegated (clauses' @ [current']) =
            map IsNegated (clauses @ [c1]) @ map (\<lambda>t. t = ''+'') (separatorTokens metas (drop n (arg # rest)))"
        by simp
      then show ?thesis using ne plus fm by simp
    next
      case noplus: False
      show ?thesis
      proof (cases "hasPrefix arg ''-''")
        case minus: True
        then have len: "length arg > 1" using sep by (cases arg; cases "tl arg") (auto simp: hasPrefix_def)
        have arg: "''-'' @ tl arg = arg" using minus by (cases arg) (auto simp: hasPrefix_def)
        from 2(8) ne noplus minus len obtain n c1 g1 where
          pfn: "parseFlagWithNegation metas pf (arg # rest) current global False = Inr (n, c1, g1)"
          and rest: "parseLoop metas pf (drop n (arg # rest)) clauses c1 g1 = Inr (clauses', current', global')"
          by (auto split: sum.splits)
        from parseFlagWithNegation_arity[OF pfn] obtain fm where
          fm: "findField metas arg = Some fm" "n = Suc (switchArity fm)" "IsNegated c1 = IsNegated current"
          by auto
        from 2(5)[OF ne noplus minus len pfn refl refl rest]
        have "map IsNegated (clauses' @ [current']) =
              map IsNegated (clauses @ [c1]) @ map (\<lambda>t. t = ''+'') (separatorTokens metas (drop n (arg # rest)))"
          by simp
        then show ?thesis using ne noplus minus fm arg by simp
      next
        case False
        with 2(7)[OF ne noplus False] 2(8) ne noplus show ?thesis
          by (auto simp: positional_def Let_def)
      qed
    qed
  qed
qed


lemma subseq_drop_self: "subseq (drop k rest) rest"
  by (metis append_take_drop_id list_emb_append2 subseq_order.order_refl)

lemma separatorTokens_subseq: "subseq (separatorTokens metas args) args"
proof (induction metas args rule: separatorTokens.induct)
  case (1 metas)
  show ?case by simp
next
  case (2 metas arg rest)
  show ?case
  proof (cases "arg = ''+'' \<or> arg = ''-''")
    case True
    with 2 show ?thesis by auto
  next
    case sep: False
    show ?thesis
    proof (cases "hasPrefix arg ''+'' \<or> hasPrefix arg ''-''")
      case True
      show ?thesis
      proof (cases "findField metas (''-'' @ tl arg)")
        case None
        with sep True show ?thesis by simp
      next
        case (Some fm)
        from 2(2)[OF _ True Some] sep
        have "subseq (separatorTokens metas (drop (switchArity fm) rest)) (drop (switchArity fm) rest)"
          by simp
        then have "subseq (separatorTokens metas (drop (switchArity fm) rest)) rest"
          using subseq_drop_self subseq_order.order_trans by blast
        then have "subseq (separatorTokens metas (drop (switchArity fm) rest)) (arg # rest)"
          by (rule list_emb_Cons)
        with sep True Some show ?thesis by simp
      qed
    next
      case False
      from 2(3)[OF _ False] sep have "subseq (separatorTokens metas rest) rest" by simp
      then have "subseq (separatorTokens metas rest) (arg # rest)" by (rule list_emb_Cons)
      with sep False show ?thesis by simp
    qed
  qed
qed

lemma separatorTokens_set: "set (separatorTokens metas args) \<subseteq> {''+'', ''-''}"
proof (induction metas args rule: separatorTokens.induct)
  case (1 metas)
  show ?case by simp
next
  case (2 metas arg rest)
  show ?case
  proof (cases "findField metas (''-'' @ tl arg)")
    case None
    with 2 show ?thesis by auto
  next
    case (Some fm)
    with 2 show ?thesis by auto
  qed
qed

section \<open>The scanning loop, token by token\<close>

text \<open>Tokens after the ones a switch consumes do not change what it does, so a vector
  that parses can be followed by further tokens, which are then scanned from the state it
  leaves.\<close>

lemma parseMultiArgs_append:
  "length specs \<le> length vs \<Longrightarrow>
   parseMultiArgs pf flagName specs (vs @ extra) acc = parseMultiArgs pf flagName specs vs acc"
proof (induction specs arbitrary: vs acc)
  case Nil
  show ?case by simp
next
  case (Cons s specs)
  then obtain v vs' where vs: "vs = v # vs'" by (cases vs) auto
  with Cons show ?case by (simp add: fun_upd_def split: sum.splits)
qed

lemma parseFlagWithNegation_append:
  assumes "parseFlagWithNegation metas pf args clause global negated = Inr r"
  shows "parseFlagWithNegation metas pf (args @ extra) clause global negated = Inr r"
proof -
  from assms obtain a as where args: "args = a # as"
    by (cases args) (auto simp: parseFlagWithNegation_def)
  from assms obtain fm where fm: "findField metas a = Some fm"
    by (auto simp: parseFlagWithNegation_def args split: option.splits)
  show ?thesis
  proof (cases "Type fm")
    case FieldTypeMulti
    with assms fm args have len: "length (Args fm) \<le> length as"
      by (auto simp: parseFlagWithNegation_def Let_def split: if_splits)
    from assms fm args FieldTypeMulti len show ?thesis
      by (auto simp: parseFlagWithNegation_def Let_def parseMultiArgs_append split: if_splits)
  next
    case FieldTypeFlag
    with assms fm args show ?thesis by (auto simp: parseFlagWithNegation_def Let_def)
  next
    case FieldTypeString
    with assms fm args show ?thesis
      by (cases as) (auto simp: parseFlagWithNegation_def Let_def split: if_splits)
  next
    case FieldTypeField
    with assms fm args show ?thesis
      by (cases as) (auto simp: parseFlagWithNegation_def Let_def split: if_splits)
  next
    case FieldTypeFile
    with assms fm args show ?thesis
      by (cases as) (auto simp: parseFlagWithNegation_def Let_def split: if_splits)
  next
    case FieldTypeNumber
    with assms fm args show ?thesis
      by (cases as) (auto simp: parseFlagWithNegation_def Let_def split: if_splits)
  qed
qed

lemma prefixed_not_separator:
  "hasPrefix arg p \<Longrightarrow> length p = 1 \<Longrightarrow> 1 < length arg \<Longrightarrow> arg \<noteq> ''+'' \<and> arg \<noteq> ''-''"
  by auto

lemma parseLoop_plus_switch:
  assumes "hasPrefix arg ''+''" "1 < length arg"
  shows "parseLoop metas pf (arg # rest) clauses current global =
     (case parseFlagWithNegation metas pf ((''-'' @ tl arg) # rest) current global True of
        Inl err \<Rightarrow> Inl err
      | Inr (consumed, current', global') \<Rightarrow>
          parseLoop metas pf (drop consumed (arg # rest)) clauses current' global')"
proof -
  from assms have "arg \<noteq> ''+''" "arg \<noteq> ''-''" by auto
  with assms show ?thesis by simp
qed

lemma parseLoop_minus_switch:
  assumes "hasPrefix arg ''-''" "1 < length arg"
  shows "parseLoop metas pf (arg # rest) clauses current global =
     (case parseFlagWithNegation metas pf (arg # rest) current global False of
        Inl err \<Rightarrow> Inl err
      | Inr (consumed, current', global') \<Rightarrow>
          parseLoop metas pf (drop consumed (arg # rest)) clauses current' global')"
proof -
  from assms have ne: "arg \<noteq> ''+''" "arg \<noteq> ''-''" by auto
  from assms have "\<not> hasPrefix arg ''+''" by (cases arg) (auto simp: hasPrefix_def)
  with assms ne show ?thesis by simp
qed

lemma parseLoop_append:
  "parseLoop metas pf pre clauses current global = Inr (clauses', current', global') \<Longrightarrow>
   parseLoop metas pf (pre @ extra) clauses current global =
     parseLoop metas pf extra clauses' current' global'"
proof (induction metas pf pre clauses current global rule: parseLoop.induct)
  case (1 metas pf clauses current global)
  then show ?case by simp
next
  case (2 metas pf arg rest clauses current global)
  show ?case
  proof (cases "arg = ''+'' \<or> arg = ''-''")
    case True
    with 2 show ?thesis by auto
  next
    case sep: False
    then have ne: "arg \<noteq> ''+''" "arg \<noteq> ''-''" by auto
    show ?thesis
    proof (cases "hasPrefix arg ''+''")
      case plus: True
      then have len: "length arg > 1" using sep by (cases arg; cases "tl arg") (auto simp: hasPrefix_def)
      from 2(8) ne plus len obtain n c1 g1 where
        pfn: "parseFlagWithNegation metas pf ((''-'' @ tl arg) # rest) current global True = Inr (n, c1, g1)"
        and rest: "parseLoop metas pf (drop n (arg # rest)) clauses c1 g1 = Inr (clauses', current', global')"
        by (auto split: sum.splits)
      from parseFlagWithNegation_arity[OF pfn] have n: "n \<le> length (arg # rest)" by auto
      from parseFlagWithNegation_append[OF pfn, of extra]
      have pfn': "parseFlagWithNegation metas pf ((''-'' @ tl arg) # rest @ extra) current global True = Inr (n, c1, g1)"
        by simp
      from 2(3)[OF ne plus len pfn refl refl rest]
      have "parseLoop metas pf (drop n (arg # rest) @ extra) clauses c1 g1 =
            parseLoop metas pf extra clauses' current' global'" .
      moreover have "drop n ((arg # rest) @ extra) = drop n (arg # rest) @ extra"
        using n by (cases n) simp_all
      ultimately show ?thesis
        using parseLoop_plus_switch[OF plus len, of metas pf "rest @ extra" clauses current global] pfn'
        by simp
    next
      case noplus: False
      show ?thesis
      proof (cases "hasPrefix arg ''-''")
        case minus: True
        then have len: "length arg > 1" using sep by (cases arg; cases "tl arg") (auto simp: hasPrefix_def)
        from 2(8) ne noplus minus len obtain n c1 g1 where
          pfn: "parseFlagWithNegation metas pf (arg # rest) current global False = Inr (n, c1, g1)"
          and rest: "parseLoop metas pf (drop n (arg # rest)) clauses c1 g1 = Inr (clauses', current', global')"
          by (auto split: sum.splits)
        from parseFlagWithNegation_arity[OF pfn] have n: "n \<le> length (arg # rest)" by auto
        from parseFlagWithNegation_append[OF pfn, of extra]
        have pfn': "parseFlagWithNegation metas pf (arg # rest @ extra) current global False = Inr (n, c1, g1)"
          by simp
        from 2(5)[OF ne noplus minus len pfn refl refl rest]
        have "parseLoop metas pf (drop n (arg # rest) @ extra) clauses c1 g1 =
              parseLoop metas pf extra clauses' current' global'" .
        moreover have "drop n ((arg # rest) @ extra) = drop n (arg # rest) @ extra"
          using n by (cases n) simp_all
        ultimately show ?thesis
          using parseLoop_minus_switch[OF minus len, of metas pf "rest @ extra" clauses current global] pfn'
          by simp
      next
        case False
        with 2(7)[OF ne noplus False] 2(8) ne noplus show ?thesis
          by simp
      qed
    qed
  qed
qed


section \<open>Clauses and separator tokens\<close>

text \<open>The clauses closed so far are only ever appended to: the loop started with more closed
  clauses returns the same, after them.\<close>

lemma parseLoop_closed_clauses:
  "parseLoop metas pf args (xs @ clauses) current global =
     (case parseLoop metas pf args clauses current global of
        Inl err \<Rightarrow> Inl err
      | Inr (cs', cur', g') \<Rightarrow> Inr (xs @ cs', cur', g'))"
proof (induction metas pf args clauses current global arbitrary: xs rule: parseLoop.induct)
  case (1 metas pf clauses current global)
  show ?case by simp
next
  case (2 metas pf arg rest clauses current global)
  show ?case
  proof (cases "arg = ''+'' \<or> arg = ''-''")
    case True
    then show ?thesis
      using 2(1)[of xs] 2(2)[of xs] by auto
  next
    case sep: False
    then have ne: "arg \<noteq> ''+''" "arg \<noteq> ''-''" by auto
    show ?thesis
    proof (cases "hasPrefix arg ''+''")
      case plus: True
      then have len: "length arg > 1" using sep by (cases arg; cases "tl arg") (auto simp: hasPrefix_def)
      show ?thesis
      proof (cases "parseFlagWithNegation metas pf ((''-'' @ tl arg) # rest) current global True")
        case (Inl e)
        then show ?thesis
          unfolding parseLoop_plus_switch[OF plus len] by simp
      next
        case (Inr r)
        obtain n c1 g1 where r: "r = (n, c1, g1)" by (cases r) auto
        from 2(3)[OF ne plus len Inr[unfolded r] refl refl, of xs] Inr r
        show ?thesis
          unfolding parseLoop_plus_switch[OF plus len] by simp
      qed
    next
      case noplus: False
      show ?thesis
      proof (cases "hasPrefix arg ''-''")
        case minus: True
        then have len: "length arg > 1" using sep by (cases arg; cases "tl arg") (auto simp: hasPrefix_def)
        show ?thesis
        proof (cases "parseFlagWithNegation metas pf (arg # rest) current global False")
          case (Inl e)
          then show ?thesis
            unfolding parseLoop_minus_switch[OF minus len] by simp
        next
          case (Inr r)
          obtain n c1 g1 where r: "r = (n, c1, g1)" by (cases r) auto
          from 2(5)[OF ne noplus minus len Inr[unfolded r] refl refl, of xs] Inr r
          show ?thesis
            unfolding parseLoop_minus_switch[OF minus len] by simp
        qed
      next
        case False
        with 2(7)[OF ne noplus False, of xs] ne noplus show ?thesis
          by simp
      qed
    qed
  qed
qed

text \<open>A separator token closes the current clause as it is and opens an empty one, negated
  for \<open>+\<close> and positive for \<open>-\<close>; the global map goes on.\<close>

lemma parseLoop_separator:
  assumes "sep = ''+'' \<or> sep = ''-''"
  shows "parseLoop metas pf (sep # rest) clauses current global =
     (case parseLoop metas pf rest [] (newClause (sep = ''+'')) global of
        Inl err \<Rightarrow> Inl err
      | Inr (cs', cur', g') \<Rightarrow> Inr (clauses @ [current] @ cs', cur', g'))"
proof -
  have "parseLoop metas pf (sep # rest) clauses current global =
        parseLoop metas pf rest ((clauses @ [current]) @ []) (newClause (sep = ''+'')) global"
    using assms by auto
  then show ?thesis
    unfolding parseLoop_closed_clauses by (simp split: sum.splits)
qed

lemma Parse_separator:
  assumes pre: "parseLoop metas pf pre [] (newClause False) Map.empty = Inr (cs, cur, g)"
    and sep: "sep = ''+'' \<or> sep = ''-''"
  shows "Parse metas pf (pre @ sep # rest) =
     (case parseLoop metas pf rest [] (newClause (sep = ''+'')) g of
        Inl err \<Rightarrow> Inl err
      | Inr (cs', cur', g') \<Rightarrow>
          Inr (applyDefaults metas
                 (map (\<lambda>c. c\<lparr>Fields := g' ++ Fields c\<rparr>) (cs @ [cur] @ cs' @ [cur']))))"
  unfolding Parse_def parseLoop_append[OF pre] parseLoop_separator[OF sep]
  by (simp split: sum.splits)

lemma parse_yRight_minus_example:
  "Parse yRightConfig pf [''-y'', ''cpu'', ''-'', ''-y'', ''disk'', ''-right''] =
     Inr [\<lparr>Fields = [''Y'' \<mapsto> VList [VString ''cpu'']], IsNegated = False\<rparr>,
          \<lparr>Fields = [''Y'' \<mapsto> VList [VString ''disk''], ''Right'' \<mapsto> VBool True],
           IsNegated = False\<rparr>]"
  by (simp add: Parse_def yRightConfig_def parseFlagName_Y parseFlagName_Right hasPrefix_def
      parseFlagWithNegation_def getTarget_def putTarget_def storeValue_def
      parseValueWithValidation_def parseValue_def newClause_def applyDefaults_def Let_def)

text \<open>
  Claim C1, as amended. Whenever \<open>Parse\<close> accepts an argument vector, its clauses are, in
  order, the opening clause and one clause for each separator token of the vector (a \<open>+\<close> or
  \<open>-\<close> standing alone where the scanner reads a token, so not one that a switch before it takes
  as its argument); the opening clause is positive, a clause begun by \<open>+\<close> is negated and a
  clause begun by \<open>-\<close> is positive. The separator tokens are tokens of the vector, in its
  order. The vector is split there: when the tokens before a separator token parse on their own,
  to the closed clauses \<open>cs\<close>, the current clause \<open>cur\<close> and the global map \<open>g\<close>, the scan
  of the whole vector goes on after the separator with \<open>cs\<close> and \<open>cur\<close> closed, in an empty
  clause that is negated for \<open>+\<close> and positive for \<open>-\<close>; \<open>Parse\<close> returns the clauses
  \<open>cs\<close> and \<open>cur\<close> with the fields the tokens before the separator gave them, followed by
  the clauses that the tokens after it give from the empty clause (every clause completed with
  the global values and the defaults), and fails exactly when the tokens after the separator do.
  With \<open>Y\<close> an accumulating field and \<open>Right\<close> a flag, both of clause scope, the
  vector \<open>-y cpu + -y disk -right\<close> gives exactly two clauses: \<open>Y = [cpu]\<close>, positive, and
  \<open>Y = [disk]\<close>, \<open>Right = true\<close>, negated; with \<open>-\<close> for the \<open>+\<close> the same two clauses,
  both positive.
\<close>

theorem C1_parse_clauses_at_separators:
  "(\<forall>clauses. Parse metas pf args = Inr clauses \<longrightarrow>
      map IsNegated clauses = False # map (\<lambda>t. t = ''+'') (separatorTokens metas args))
   \<and> subseq (separatorTokens metas args) args
   \<and> set (separatorTokens metas args) \<subseteq> {''+'', ''-''}
   \<and> (parseLoop metas pf pre [] (newClause False) Map.empty = Inr (cs, cur, g) \<and>
       (sep = ''+'' \<or> sep = ''-'') \<longrightarrow>
         parseLoop metas pf (pre @ sep # rest) [] (newClause False) Map.empty =
           parseLoop metas pf rest (cs @ [cur]) (newClause (sep = ''+'')) g
         \<and> Parse metas pf (pre @ sep # rest) =
           (case parseLoop metas pf rest [] (newClause (sep = ''+'')) g of
              Inl err \<Rightarrow> Inl err
            | Inr (cs', cur', g') \<Rightarrow>
                Inr (applyDefaults metas
                       (map (\<lambda>c. c\<lparr>Fields := g' ++ Fields c\<rparr>) (cs @ [cur] @ cs' @ [cur'])))))
   \<and> Parse yRightConfig pf [''-y'', ''cpu'', ''+'', ''-y'', ''disk'', ''-right''] =
       Inr [\<lparr>Fields = [''Y'' \<mapsto> VList [VString ''cpu'']], IsNegated = False\<rparr>,
            \<lparr>Fields = [''Y'' \<mapsto> VList [VString ''disk''], ''Right'' \<mapsto> VBool True],
             IsNegated = True\<rparr>]
   \<and> Parse yRightConfig pf [''-y'', ''cpu'', ''-'', ''-y'', ''disk'', ''-right''] =
       Inr [\<lparr>Fields = [''Y'' \<mapsto> VList [VString ''cpu'']], IsNegated = False\<rparr>,
            \<lparr>Fields = [''Y'' \<mapsto> VList [VString ''disk''], ''Right'' \<mapsto> VBool True],
             IsNegated = False\<rparr>]"
proof -
  have neg: "map IsNegated clauses = False # map (\<lambda>t. t = ''+'') (separatorTokens metas args)"
    if p: "Parse metas pf args = Inr clauses" for clauses
  proof -
    from p obtain cs cur g where
      loop: "parseLoop metas pf args [] (newClause False) Map.empty = Inr (cs, cur, g)"
      and res: "clauses = applyDefaults metas (map (\<lambda>c. c\<lparr>Fields := g ++ Fields c\<rparr>) (cs @ [cur]))"
      by (auto simp: Parse_def split: sum.splits)
    have "map IsNegated clauses = map IsNegated (cs @ [cur])"
      unfolding res applyDefaults_def by (simp add: comp_def)
    with parseLoop_negated[OF loop] show ?thesis
      by (simp add: newClause_def)
  qed
  have split: "parseLoop metas pf (pre @ sep # rest) [] (newClause False) Map.empty =
           parseLoop metas pf rest (cs @ [cur]) (newClause (sep = ''+'')) g
         \<and> Parse metas pf (pre @ sep # rest) =
           (case parseLoop metas pf rest [] (newClause (sep = ''+'')) g of
              Inl err \<Rightarrow> Inl err
            | Inr (cs', cur', g') \<Rightarrow>
                Inr (applyDefaults metas
                       (map (\<lambda>c. c\<lparr>Fields := g' ++ Fields c\<rparr>) (cs @ [cur] @ cs' @ [cur']))))"
    if pre: "parseLoop metas pf pre [] (newClause False) Map.empty = Inr (cs, cur, g)"
      and sep: "sep = ''+'' \<or> sep = ''-''"
  proof
    show "parseLoop metas pf (pre @ sep # rest) [] (newClause False) Map.empty =
           parseLoop metas pf rest (cs @ [cur]) (newClause (sep = ''+'')) g"
      unfolding parseLoop_append[OF pre] using sep by auto
    show "Parse metas pf (pre @ sep # rest) =
           (case parseLoop metas pf rest [] (newClause (sep = ''+'')) g of
              Inl err \<Rightarrow> Inl err
            | Inr (cs', cur', g') \<Rightarrow>
                Inr (applyDefaults metas
                       (map (\<lambda>c. c\<lparr>Fields := g' ++ Fields c\<rparr>) (cs @ [cur] @ cs' @ [cur']))))"
      by (rule Parse_separator[OF pre sep])
  qed
  from neg split show ?thesis
    using separatorTokens_subseq separatorTokens_set parse_yRight_example
      parse_yRight_minus_example by blast
qed

theorem C1_parse_clauses_witness:
  "Parse yRightConfig parseDecimal [''-y'', ''cpu'', ''+'', ''-y'', ''disk'', ''-right''] =
     Inr [\<lparr>Fields = [''Y'' \<mapsto> VList [VString ''cpu'']], IsNegated = False\<rparr>,
          \<lparr>Fields = [''Y'' \<mapsto> VList [VString ''disk''], ''Right'' \<mapsto> VBool True],
           IsNegated = True\<rparr>]
   \<and> separatorTokens (yRightConfig :: int FieldMeta list)
        [''-y'', ''cpu'', ''+'', ''-y'', ''disk'', ''-right''] = [''+'']
   \<and> Parse yRightConfig parseDecimal ([''-y'', ''cpu''] @ ''-'' # [''-right'', ''-y'', ''disk'']) =
     Inr [\<lparr>Fields = [''Y'' \<mapsto> VList [VString ''cpu'']], IsNegated = False\<rparr>,
          \<lparr>Fields = [''Right'' \<mapsto> VBool True, ''Y'' \<mapsto> VList [VString ''disk'']],
           IsNegated = False\<rparr>]"
proof -
  let ?args = "[''-y'', ''cpu'', ''+'', ''-y'', ''disk'', ''-right'']"
  let ?metas = "yRightConfig :: int FieldMeta list"
  let ?c1 = "\<lparr>Fields = [''Y'' \<mapsto> VList [VString ''cpu'']], IsNegated = False\<rparr> :: int ClauseSet"
  let ?c2 = "\<lparr>Fields = [''Right'' \<mapsto> VBool True, ''Y'' \<mapsto> VList [VString ''disk'']],
           IsNegated = False\<rparr> :: int ClauseSet"
  note ev = yRightConfig_def parseFlagName_Y parseFlagName_Right hasPrefix_def
      parseFlagWithNegation_def getTarget_def putTarget_def storeValue_def
      parseValueWithValidation_def parseValue_def newClause_def Let_def
  have pre: "parseLoop ?metas parseDecimal [''-y'', ''cpu''] [] (newClause False) Map.empty =
      Inr ([], ?c1, Map.empty)"
    by (simp add: ev)
  have rest: "parseLoop ?metas parseDecimal [''-right'', ''-y'', ''disk''] [] (newClause False) Map.empty =
      Inr ([], ?c2, Map.empty)"
    by (simp add: ev)
  have dflt: "applyDefaults ?metas [?c1, ?c2] = [?c1, ?c2]"
    by (simp add: applyDefaults_def yRightConfig_def)
  note c1 = C1_parse_clauses_at_separators
      [of ?metas parseDecimal ?args "[''-y'', ''cpu'']" "[]" ?c1 Map.empty "''-''"
          "[''-right'', ''-y'', ''disk'']"]
  from c1 have p: "Parse ?metas parseDecimal ?args =
     Inr [\<lparr>Fields = [''Y'' \<mapsto> VList [VString ''cpu'']], IsNegated = False\<rparr>,
          \<lparr>Fields = [''Y'' \<mapsto> VList [VString ''disk''], ''Right'' \<mapsto> VBool True],
           IsNegated = True\<rparr>]"
    by blast
  with c1 have "[False, True] = False # map (\<lambda>t. t = ''+'') (separatorTokens ?metas ?args)"
    by auto
  moreover from c1 have "set (separatorTokens ?metas ?args) \<subseteq> {''+'', ''-''}"
    by blast
  ultimately have s: "separatorTokens ?metas ?args = [''+'']"
    by (cases "separatorTokens ?metas ?args"; cases "tl (separatorTokens ?metas ?args)") auto
  from c1 pre have "Parse ?metas parseDecimal ([''-y'', ''cpu''] @ ''-'' # [''-right'', ''-y'', ''disk'']) =
     (case parseLoop ?metas parseDecimal [''-right'', ''-y'', ''disk''] [] (newClause (''-'' = ''+'')) Map.empty of
              Inl err \<Rightarrow> Inl err
            | Inr (cs', cur', g') \<Rightarrow>
                Inr (applyDefaults ?metas
                       (map (\<lambda>c. c\<lparr>Fields := g' ++ Fields c\<rparr>) ([] @ [?c1] @ cs' @ [cur']))))"
    by blast
  also have "\<dots> = Inr [?c1, ?c2]"
    using rest dflt by (simp del: parseLoop.simps)
  finally have m: "Parse ?metas parseDecimal ([''-y'', ''cpu''] @ ''-'' # [''-right'', ''-y'', ''disk'']) =
     Inr [?c1, ?c2]" .
  from p s m show ?thesis by simp
qed

text \<open>
  Claim C1 as it is stated fails for a \<open>+\<close> or \<open>-\<close> that stands alone directly after a
  switch that takes a value: the switch takes it as its value, and no clause begins there. The
  vector \<open>-y + -right\<close> parses to one clause, positive, with \<open>Y = ["+"]\<close> and
  \<open>Right = true\<close>.
\<close>

theorem C1_separator_as_value_counterexample:
  "Parse yRightConfig parseDecimal [''-y'', ''+'', ''-right''] =
     Inr [\<lparr>Fields = [''Y'' \<mapsto> VList [VString ''+''], ''Right'' \<mapsto> VBool True],
           IsNegated = False\<rparr>]"
  by (simp add: Parse_def yRightConfig_def parseFlagName_Y parseFlagName_Right hasPrefix_def
      parseFlagWithNegation_def getTarget_def putTarget_def storeValue_def
      parseValueWithValidation_def parseValue_def newClause_def applyDefaults_def Let_def)

section \<open>Enumerated values\<close>

lemma parseFlagName_Type: "parseFlagName ''Type'' = ''-type''" by code_simp
lemma parseFlagName_Name: "parseFlagName ''Name'' = ''-name''" by code_simp

lemma enum_rejected:
  assumes fm: "findField metas flag = Some fm" and ty: "Type fm = FieldTypeString"
    and en: "Enum fm \<noteq> []" and v: "v \<notin> set (Enum fm)"
  shows "parseFlagWithNegation metas pf (flag # v # rest) clause global negated =
     Inl (''parsing value for '' @ flag @ '': invalid value '' @ [CHR 0x27] @ v @ [CHR 0x27]
          @ '', must be one of: '' @ joinStrings '', '' (Enum fm))"
  using assms
  by (simp add: parseFlagWithNegation_def Let_def parseValueWithValidation_def parseValue_def)

lemma enum_accepted:
  assumes fm: "findField metas flag = Some fm" and ty: "Type fm = FieldTypeString"
    and v: "v \<in> set (Enum fm)"
  shows "\<exists>c' g'. parseFlagWithNegation metas pf (flag # v # rest) clause global negated = Inr (2, c', g')"
  using assms
  by (auto simp add: parseFlagWithNegation_def Let_def parseValueWithValidation_def parseValue_def)

lemma switch_spelling:
  assumes "hasPrefix flag ''-''" "1 < length flag" "sw = flag \<or> sw = ''+'' @ tl flag"
  shows "parseLoop metas pf (sw # rest) clauses current global =
     (case parseFlagWithNegation metas pf (flag # rest) current global (sw \<noteq> flag) of
        Inl err \<Rightarrow> Inl err
      | Inr (consumed, current', global') \<Rightarrow>
          parseLoop metas pf (drop consumed (sw # rest)) clauses current' global')"
proof (cases "sw = flag")
  case True
  show ?thesis
    unfolding True using parseLoop_minus_switch[OF assms(1,2), of metas pf rest clauses current global]
    by (simp del: parseLoop.simps)
next
  case False
  with assms have sw: "sw = ''+'' @ tl flag" by simp
  have fl: "''-'' @ tl flag = flag" using assms(1) by (cases flag) (auto simp: hasPrefix_def)
  have "hasPrefix sw ''+''" "1 < length sw" using sw assms(2) by (auto simp: hasPrefix_def)
  from parseLoop_plus_switch[OF this, of metas pf rest clauses current global] sw fl False
  show ?thesis by (simp del: parseLoop.simps)
qed

text \<open>
  Claim C3. Let a switch be a text field whose descriptor declares enumerated values, spelt
  with \<open>-\<close> or with \<open>+\<close>, and let it follow tokens that parse. If the token after it is
  outside the enumeration, \<open>Parse\<close> fails there, whatever follows, and the message lists the
  allowed values joined by a comma and a space; if it is inside, the value is accepted and the
  vector that ends with it parses.
\<close>

theorem C3_enum_checked_at_token:
  assumes "findField metas flag = Some fm" "Type fm = FieldTypeString" "Enum fm \<noteq> []"
    and "hasPrefix flag ''-''" "1 < length flag" "sw = flag \<or> sw = ''+'' @ tl flag"
    and "parseLoop metas pf pre [] (newClause False) Map.empty = Inr st"
  shows "(v \<notin> set (Enum fm) \<longrightarrow>
           Parse metas pf (pre @ sw # v # rest) =
             Inl (''parsing value for '' @ flag @ '': invalid value '' @ [CHR 0x27] @ v @ [CHR 0x27]
                  @ '', must be one of: '' @ joinStrings '', '' (Enum fm)))
       \<and> (v \<in> set (Enum fm) \<longrightarrow>
           parseValueWithValidation pf v fm = Inr (VString v)
           \<and> (\<exists>clauses. Parse metas pf (pre @ [sw, v]) = Inr clauses))"
proof -
  obtain cs cur g where st: "st = (cs, cur, g)" by (cases st) auto
  note app = parseLoop_append[OF assms(7)[unfolded st]]
  note sp = switch_spelling[OF assms(4,5,6)]
  show ?thesis
  proof (intro conjI impI)
    assume v: "v \<notin> set (Enum fm)"
    show "Parse metas pf (pre @ sw # v # rest) =
             Inl (''parsing value for '' @ flag @ '': invalid value '' @ [CHR 0x27] @ v @ [CHR 0x27]
                  @ '', must be one of: '' @ joinStrings '', '' (Enum fm))"
      unfolding Parse_def app sp enum_rejected[OF assms(1,2,3) v] by simp
  next
    assume v: "v \<in> set (Enum fm)"
    then show "parseValueWithValidation pf v fm = Inr (VString v)"
      using assms(2) by (simp add: parseValueWithValidation_def parseValue_def)
  next
    assume v: "v \<in> set (Enum fm)"
    from enum_accepted[OF assms(1,2) v, of pf "[]" cur g "sw \<noteq> flag"]
    obtain c' g' where "parseFlagWithNegation metas pf [flag, v] cur g (sw \<noteq> flag) = Inr (2, c', g')"
      by auto
    then show "\<exists>clauses. Parse metas pf (pre @ [sw, v]) = Inr clauses"
      unfolding Parse_def app sp by simp
  qed
qed

theorem C3_enum_checked_witness:
  "Parse testCompletionConfig parseDecimal [''-name'', ''x'', ''-type'', ''pie'', ''-bogus''] =
     Inl ''parsing value for -type: invalid value 'pie', must be one of: bar, line, area''
   \<and> (\<exists>clauses. Parse testCompletionConfig parseDecimal [''-name'', ''x'', ''-type'', ''bar''] = Inr clauses)"
proof -
  let ?fm = "\<lparr>Name = ''Type'', Type = FieldTypeString, Scope = ScopeGlobal, Mode = ModeLast, Args = [],
       DefaultValue = Some (VString ''bar''), Help = ''Type field'', Required = False,
       Complete = [], Suffix = [], Enum = [''bar'', ''line'', ''area'']\<rparr> :: int FieldMeta"
  have f: "findField testCompletionConfig ''-type'' = Some ?fm"
    by (simp add: testCompletionConfig_def parseFlagName_Type parseFlagName_Name)
  have pre: "parseLoop testCompletionConfig parseDecimal [''-name'', ''x''] [] (newClause False) Map.empty
      = Inr ([], newClause False, [''Name'' \<mapsto> VString ''x''])"
    by (simp add: testCompletionConfig_def parseFlagName_Name hasPrefix_def parseFlagWithNegation_def
        getTarget_def putTarget_def storeValue_def parseValueWithValidation_def parseValue_def Let_def)
  have "''pie'' \<notin> set (Enum ?fm)" "''bar'' \<in> set (Enum ?fm)" by simp_all
  with C3_enum_checked_at_token[OF f _ _ _ _ _ pre, of "''-type''" "''pie''" "[''-bogus'']"]
       C3_enum_checked_at_token[OF f _ _ _ _ _ pre, of "''-type''" "''bar''" "[]"]
  show ?thesis by (simp add: hasPrefix_def)
qed


section \<open>Negated switches\<close>

lemma findField_flag:
  "findField metas flag = Some fm \<Longrightarrow> flag = parseFlagName (Name fm)"
  by (induction metas) (auto split: if_splits)

lemma parseFlagName_prefix: "hasPrefix (parseFlagName name) ''-''"
  by (simp add: parseFlagName_def hasPrefix_def)

lemma parseFlagName_length: "name \<noteq> [] \<Longrightarrow> 1 < length (parseFlagName name)"
  by (cases name) (auto simp: parseFlagName_def toLower_def)

lemma getTarget_putTarget:
  "(case putTarget fm clause global t of (c', g') \<Rightarrow> getTarget fm c' g') = t"
  by (simp add: getTarget_def putTarget_def)

lemma putTarget_putTarget:
  "(case putTarget fm clause global t of (c', g') \<Rightarrow> putTarget fm c' g' t') =
     putTarget fm clause global t'"
  by (simp add: putTarget_def)

lemma putTarget_getTarget:
  "(case putTarget fm clause global t of (c', g') \<Rightarrow> putTarget fm c' g' (getTarget fm c' g')) =
     putTarget fm clause global t"
  by (simp add: getTarget_def putTarget_def)

lemma markNegated_storeValue:
  "Type fm \<noteq> FieldTypeFlag \<Longrightarrow>
   markNegated fm (storeValue (Mode fm) target (Name fm) v) =
     storeValue (Mode fm) target (Name fm) (negationWrap (Type fm) v)"
  by (cases "Mode fm")
     (auto simp: markNegated_def storeValue_def split: option.splits gvalue.splits)

lemma negated_parse_relation:
  assumes fm: "findField metas flag = Some fm"
  shows "parseFlagWithNegation metas pf (flag # rest) clause global True =
     (case parseFlagWithNegation metas pf (flag # rest) clause global False of
        Inl err \<Rightarrow> Inl err
      | Inr (n, c', g') \<Rightarrow>
          Inr (n, putTarget fm c' g' (markNegated fm (getTarget fm c' g'))))"
proof (cases "Type fm = FieldTypeFlag")
  case True
  then show ?thesis
    using fm
    by (simp add: parseFlagWithNegation_def Let_def markNegated_def putTarget_def getTarget_def)
next
  case nf: False
  note ms = markNegated_storeValue[OF nf]
  show ?thesis
  proof (cases "Type fm = FieldTypeMulti")
    case True
    from True show ?thesis
      using fm
      by (simp add: parseFlagWithNegation_def Let_def putTarget_def getTarget_def ms
               negationWrap_def split: sum.splits)
  next
    case False
    from False nf show ?thesis
      using fm
      by (cases "Type fm")
         (simp_all add: parseFlagWithNegation_def Let_def putTarget_def getTarget_def ms
               negationWrap_def split: sum.splits)
  qed
qed

text \<open>A flag takes no token after its name and is set to true, negated or not, in the global
  map when its scope is global and in the current clause otherwise.\<close>

lemma flag_sets_true:
  assumes "findField metas flag = Some fm" "Type fm = FieldTypeFlag"
  shows "parseFlagWithNegation metas pf (flag # rest) current global negated =
     Inr (1, if Scope fm = ScopeGlobal then (current, global(Name fm \<mapsto> VBool True))
             else (current\<lparr>Fields := (Fields current)(Name fm \<mapsto> VBool True)\<rparr>, global))"
  using assms by (simp add: parseFlagWithNegation_def Let_def putTarget_def getTarget_def)

lemma testCompletion_flags:
  "parseFlagName ''Field'' = ''-field''" "parseFlagName ''File'' = ''-file''"
  "parseFlagName ''DataFile'' = ''-data-file''" "parseFlagName ''Config'' = ''-config''"
  "parseFlagName ''Match'' = ''-match''"
  by code_simp+

lemmas testCompletion_eval =
  testCompletionConfig_def parseFlagName_Name parseFlagName_Type testCompletion_flags
  hasPrefix_def hasSuffix_def parseFlagWithNegation_def getTarget_def putTarget_def
  storeValue_def parseValueWithValidation_def parseValue_def parseValueByArgumentType_def
  newClause_def Let_def

text \<open>
  Claim C5. For a declared switch, the scanner reads the spelling with \<open>+\<close> as it reads the
  spelling with \<open>-\<close>, with the negation set. The negated parse fails exactly when the positive
  one does, with the same error, and consumes the same tokens; it leaves what the positive one
  leaves, except that the value just stored carries the negation mark (\<open>markNegated\<close>): a
  single value is wrapped as \<open>{value, _negated: true}\<close>, the map of a multi-argument switch
  gains \<open>_negated: true\<close>. For a flag the two parses are the same: either spelling takes the
  name only and sets the flag to \<open>true\<close> (in the global map for a flag of global scope, in the
  current clause otherwise), and the scan goes on with the next token.
\<close>

theorem C5_negated_switch:
  assumes "findField metas flag = Some fm" "Name fm \<noteq> []"
  shows "parseLoop metas pf ((''+'' @ tl flag) # rest) clauses current global =
           (case parseFlagWithNegation metas pf (flag # rest) current global True of
              Inl err \<Rightarrow> Inl err
            | Inr (n, c', g') \<Rightarrow>
                parseLoop metas pf (drop n ((''+'' @ tl flag) # rest)) clauses c' g')
       \<and> parseLoop metas pf (flag # rest) clauses current global =
           (case parseFlagWithNegation metas pf (flag # rest) current global False of
              Inl err \<Rightarrow> Inl err
            | Inr (n, c', g') \<Rightarrow> parseLoop metas pf (drop n (flag # rest)) clauses c' g')
       \<and> parseFlagWithNegation metas pf (flag # rest) current global True =
           (case parseFlagWithNegation metas pf (flag # rest) current global False of
              Inl err \<Rightarrow> Inl err
            | Inr (n, c', g') \<Rightarrow>
                Inr (n, putTarget fm c' g' (markNegated fm (getTarget fm c' g'))))
       \<and> (Type fm = FieldTypeFlag \<longrightarrow>
            parseFlagWithNegation metas pf (flag # rest) current global True =
            parseFlagWithNegation metas pf (flag # rest) current global False)
       \<and> (Type fm = FieldTypeFlag \<longrightarrow>
            parseFlagWithNegation metas pf (flag # rest) current global True =
              Inr (1, if Scope fm = ScopeGlobal then (current, global(Name fm \<mapsto> VBool True))
                      else (current\<lparr>Fields := (Fields current)(Name fm \<mapsto> VBool True)\<rparr>, global))
            \<and> parseFlagWithNegation metas pf (flag # rest) current global False =
              Inr (1, if Scope fm = ScopeGlobal then (current, global(Name fm \<mapsto> VBool True))
                      else (current\<lparr>Fields := (Fields current)(Name fm \<mapsto> VBool True)\<rparr>, global))
            \<and> parseLoop metas pf ((''+'' @ tl flag) # rest) clauses current global =
              (if Scope fm = ScopeGlobal
               then parseLoop metas pf rest clauses current (global(Name fm \<mapsto> VBool True))
               else parseLoop metas pf rest clauses
                      (current\<lparr>Fields := (Fields current)(Name fm \<mapsto> VBool True)\<rparr>) global)
            \<and> parseLoop metas pf (flag # rest) clauses current global =
              (if Scope fm = ScopeGlobal
               then parseLoop metas pf rest clauses current (global(Name fm \<mapsto> VBool True))
               else parseLoop metas pf rest clauses
                      (current\<lparr>Fields := (Fields current)(Name fm \<mapsto> VBool True)\<rparr>) global))"
proof -
  from assms have pre: "hasPrefix flag ''-''" and len: "1 < length flag"
    using findField_flag[OF assms(1)] parseFlagName_prefix parseFlagName_length by auto
  have a: "parseLoop metas pf ((''+'' @ tl flag) # rest) clauses current global =
           (case parseFlagWithNegation metas pf (flag # rest) current global True of
              Inl err \<Rightarrow> Inl err
            | Inr (n, c', g') \<Rightarrow>
                parseLoop metas pf (drop n ((''+'' @ tl flag) # rest)) clauses c' g')"
    using switch_spelling[OF pre len, of "''+'' @ tl flag" metas pf rest clauses current global] pre
    by (cases flag) (auto simp: hasPrefix_def simp del: parseLoop.simps)
  have b: "parseLoop metas pf (flag # rest) clauses current global =
           (case parseFlagWithNegation metas pf (flag # rest) current global False of
              Inl err \<Rightarrow> Inl err
            | Inr (n, c', g') \<Rightarrow> parseLoop metas pf (drop n (flag # rest)) clauses c' g')"
    by (rule parseLoop_minus_switch[OF pre len])
  note c = negated_parse_relation[OF assms(1), of pf rest current global]
  have d: "parseFlagWithNegation metas pf (flag # rest) current global True =
            parseFlagWithNegation metas pf (flag # rest) current global False"
    if "Type fm = FieldTypeFlag"
    using that assms(1) by (simp add: parseFlagWithNegation_def Let_def)
  have e: "parseFlagWithNegation metas pf (flag # rest) current global negated =
              Inr (1, if Scope fm = ScopeGlobal then (current, global(Name fm \<mapsto> VBool True))
                      else (current\<lparr>Fields := (Fields current)(Name fm \<mapsto> VBool True)\<rparr>, global))"
    if "Type fm = FieldTypeFlag" for negated
    by (rule flag_sets_true[OF assms(1) that])
  have f: "parseLoop metas pf ((''+'' @ tl flag) # rest) clauses current global =
              (if Scope fm = ScopeGlobal
               then parseLoop metas pf rest clauses current (global(Name fm \<mapsto> VBool True))
               else parseLoop metas pf rest clauses
                      (current\<lparr>Fields := (Fields current)(Name fm \<mapsto> VBool True)\<rparr>) global)"
    if t: "Type fm = FieldTypeFlag"
    unfolding a e[OF t] by simp
  have g: "parseLoop metas pf (flag # rest) clauses current global =
              (if Scope fm = ScopeGlobal
               then parseLoop metas pf rest clauses current (global(Name fm \<mapsto> VBool True))
               else parseLoop metas pf rest clauses
                      (current\<lparr>Fields := (Fields current)(Name fm \<mapsto> VBool True)\<rparr>) global)"
    if t: "Type fm = FieldTypeFlag"
    unfolding b e[OF t] by simp
  from a b c d e f g show ?thesis by blast
qed

theorem C5_negated_switch_witness:
  "parseLoop testCompletionConfig parseDecimal [''+name'', ''x''] [] (newClause False) Map.empty =
     Inr ([], newClause False,
          [''Name'' \<mapsto> VMap [''value'' \<mapsto> VString ''x'', ''_negated'' \<mapsto> VBool True]])
   \<and> parseLoop testCompletionConfig parseDecimal [''-name'', ''x''] [] (newClause False) Map.empty =
     Inr ([], newClause False, [''Name'' \<mapsto> VString ''x''])
   \<and> parseLoop yRightConfig parseDecimal [''+right''] [] (newClause False) Map.empty =
     Inr ([], \<lparr>Fields = [''Right'' \<mapsto> VBool True], IsNegated = False\<rparr>, Map.empty)
   \<and> parseLoop yRightConfig parseDecimal [''-right''] [] (newClause False) Map.empty =
     Inr ([], \<lparr>Fields = [''Right'' \<mapsto> VBool True], IsNegated = False\<rparr>, Map.empty)
   \<and> parseLoop testCompletionConfig parseDecimal [''+match'', ''host'', ''web1''] []
       (newClause False) Map.empty =
     Inr ([], \<lparr>Fields = [''Match'' \<mapsto> VList [VMap [''field'' \<mapsto> VString ''host'',
                 ''content'' \<mapsto> VString ''web1'', ''_negated'' \<mapsto> VBool True]]],
               IsNegated = False\<rparr>, Map.empty)"
proof -
  let ?fm = "\<lparr>Name = ''Name'', Type = FieldTypeString, Scope = ScopeGlobal, Mode = ModeLast,
       Args = [], DefaultValue = None, Help = ''Name field'', Required = False, Complete = [],
       Suffix = [], Enum = []\<rparr> :: int FieldMeta"
  let ?right = "\<lparr>Name = ''Right'', Type = FieldTypeFlag, Scope = ScopeLocal, Mode = ModeLast,
       Args = [], DefaultValue = None, Help = ''Use right-hand scale'', Required = False,
       Complete = [], Suffix = [], Enum = []\<rparr> :: int FieldMeta"
  let ?match = "\<lparr>Name = ''Match'', Type = FieldTypeMulti, Scope = ScopeLocal, Mode = ModeList,
       Args = [\<lparr>ArgName = ''field'', ArgType = ArgumentTypeField\<rparr>,
               \<lparr>ArgName = ''content'', ArgType = ArgumentTypeContent\<rparr>],
       DefaultValue = None, Help = ''Match conditions'', Required = False, Complete = [],
       Suffix = [], Enum = []\<rparr> :: int FieldMeta"
  have f: "findField testCompletionConfig ''-name'' = Some ?fm"
    by (simp add: testCompletionConfig_def parseFlagName_Name)
  have r: "findField yRightConfig ''-right'' = Some ?right"
    by (simp add: yRightConfig_def parseFlagName_Y parseFlagName_Right)
  have m: "findField testCompletionConfig ''-match'' = Some ?match"
    by (simp add: testCompletionConfig_def parseFlagName_Name parseFlagName_Type
        testCompletion_flags)
  have pos: "parseFlagWithNegation testCompletionConfig parseDecimal [''-name'', ''x'']
               (newClause False) Map.empty False =
             Inr (2, newClause False, [''Name'' \<mapsto> VString ''x''])"
    by (simp add: testCompletion_eval)
  note c5 = C5_negated_switch[OF f, of parseDecimal "[''x'']" "[]" "newClause False" Map.empty]
  from c5 have neg: "parseFlagWithNegation testCompletionConfig parseDecimal [''-name'', ''x'']
               (newClause False) Map.empty True =
             Inr (2, newClause False,
                  [''Name'' \<mapsto> VMap [''value'' \<mapsto> VString ''x'', ''_negated'' \<mapsto> VBool True]])"
    by (simp add: pos putTarget_def getTarget_def markNegated_def negationWrap_def
             del: parseLoop.simps)
  from c5 have name: "parseLoop testCompletionConfig parseDecimal [''+name'', ''x''] []
        (newClause False) Map.empty =
     Inr ([], newClause False,
          [''Name'' \<mapsto> VMap [''value'' \<mapsto> VString ''x'', ''_negated'' \<mapsto> VBool True]])
   \<and> parseLoop testCompletionConfig parseDecimal [''-name'', ''x''] [] (newClause False) Map.empty =
     Inr ([], newClause False, [''Name'' \<mapsto> VString ''x''])"
    by (simp add: pos neg del: parseLoop.simps(2))
  have t: "Type ?right = FieldTypeFlag" by simp
  note c5r = C5_negated_switch[OF r, of parseDecimal "[]" "[]" "newClause False" Map.empty,
      THEN conjunct2, THEN conjunct2, THEN conjunct2, THEN conjunct2, THEN mp, OF _ t,
      THEN conjunct2, THEN conjunct2]
  from c5r have right: "parseLoop yRightConfig parseDecimal [''+right''] [] (newClause False) Map.empty =
     Inr ([], \<lparr>Fields = [''Right'' \<mapsto> VBool True], IsNegated = False\<rparr>, Map.empty)
   \<and> parseLoop yRightConfig parseDecimal [''-right''] [] (newClause False) Map.empty =
     Inr ([], \<lparr>Fields = [''Right'' \<mapsto> VBool True], IsNegated = False\<rparr>, Map.empty)"
    by (simp add: newClause_def del: parseLoop.simps(2))
  have mpos: "parseFlagWithNegation testCompletionConfig parseDecimal [''-match'', ''host'', ''web1'']
               (newClause False) Map.empty False =
             Inr (3, \<lparr>Fields = [''Match'' \<mapsto> VList [VMap [''field'' \<mapsto> VString ''host'',
                        ''content'' \<mapsto> VString ''web1'']]], IsNegated = False\<rparr>, Map.empty)"
    by (simp add: testCompletion_eval)
  note c5m = C5_negated_switch[OF m, of parseDecimal "[''host'', ''web1'']" "[]" "newClause False"
      Map.empty]
  from c5m[THEN conjunct2, THEN conjunct2, THEN conjunct1]
  have mneg: "parseFlagWithNegation testCompletionConfig parseDecimal [''-match'', ''host'', ''web1'']
               (newClause False) Map.empty True =
             Inr (3, \<lparr>Fields = [''Match'' \<mapsto> VList [VMap [''field'' \<mapsto> VString ''host'',
                        ''content'' \<mapsto> VString ''web1'', ''_negated'' \<mapsto> VBool True]]],
                      IsNegated = False\<rparr>, Map.empty)"
    by (simp add: mpos putTarget_def getTarget_def markNegated_def negationWrap_def)
  from c5m[THEN conjunct1]
  have match: "parseLoop testCompletionConfig parseDecimal [''+match'', ''host'', ''web1''] []
       (newClause False) Map.empty =
     Inr ([], \<lparr>Fields = [''Match'' \<mapsto> VList [VMap [''field'' \<mapsto> VString ''host'',
                 ''content'' \<mapsto> VString ''web1'', ''_negated'' \<mapsto> VBool True]]],
               IsNegated = False\<rparr>, Map.empty)"
    by (simp add: mneg del: parseLoop.simps(2))
  from name right match show ?thesis by simp
qed

section \<open>The built-in switches\<close>






section \<open>Errors of a descriptor tag\<close>

lemma parseKeyValue_offence:
  "CHR ''='' \<in> set part \<Longrightarrow>
   snd (parseKeyValue pf part meta) =
     (let key = trimSpace (takeWhile (\<lambda>c. c \<noteq> CHR ''='') part);
          val = trimSpace (tl (dropWhile (\<lambda>c. c \<noteq> CHR ''='') part)) in
      if key = ''required'' then
        (if parseBool val = None then Some (''invalid boolean for required: '' @ val) else None)
      else if key \<in> set [''help'', ''default'', ''complete'', ''args'', ''suffix'', ''enum'']
      then None
      else Some (''unknown key in tag: '' @ key))"
  by (auto simp: parseKeyValue_def splitN2_def Let_def split: option.splits)

lemma parseFieldTagPart_offence: "snd (parseFieldTagPart pf i p meta) = offence i p"
  by (auto simp: parseFieldTagPart_def offence_def Let_def containsChar_def
        parseKeyValue_offence parseFieldType_def parseFieldScope_def parseFieldMode_def)

lemma parseFieldTagLoop_offence:
  "snd (parseFieldTagLoop pf i ps meta) = firstOffence i ps"
proof (induction ps arbitrary: i meta)
  case Nil
  show ?case by simp
next
  case (Cons p ps)
  show ?case
    using parseFieldTagPart_offence[of pf i p meta] Cons
    by (cases "parseFieldTagPart pf i p meta") (auto split: option.splits)
qed

lemma reflectFields_error:
  assumes "reflectFields pf before = Inr metas" "tag \<noteq> []"
    "snd (parseFieldTag pf name tag) = Some err"
  shows "reflectFields pf (before @ (name, tag) # after) =
           Inl (''parsing field '' @ name @ '': '' @ err)"
  using assms
proof (induction before arbitrary: metas)
  case Nil
  then show ?case by (cases "parseFieldTag pf name tag") auto
next
  case (Cons a before)
  obtain n t where a: "a = (n, t)" by (cases a) auto
  from Cons show ?case
    by (auto simp: a split: if_splits prod.splits option.splits sum.splits)
qed

text \<open>
  Claim C7, as amended. \<open>parseFieldTag\<close> returns an error when the tag has no token, and
  otherwise exactly when some token is an offence: a token without \<open>=\<close> that is not a known
  kind at index 0, not a known scope at index 1 or not a known multiplicity at index 2, or a
  token \<open>key=value\<close> with an unknown key (or with \<open>required\<close> and a value that is no
  boolean). The error is that of the first such token, and \<open>reflectFields\<close> then returns it
  and no descriptor. A kind, scope or multiplicity token that is absent or empty is no offence.
\<close>

theorem C7_tag_errors:
  "(parseTagParts tag = [] \<longrightarrow> snd (parseFieldTag pf name tag) = Some ''empty tag'')
   \<and> (parseTagParts tag \<noteq> [] \<longrightarrow>
        snd (parseFieldTag pf name tag) = firstOffence 0 (parseTagParts tag))
   \<and> (tag \<noteq> [] \<and> snd (parseFieldTag pf name tag) = Some err
        \<and> reflectFields pf before = Inr metas
        \<longrightarrow> reflectFields pf (before @ (name, tag) # after) =
              Inl (''parsing field '' @ name @ '': '' @ err))"
  using reflectFields_error[of pf before metas tag name err after]
  by (simp add: parseFieldTag_def Let_def parseFieldTagLoop_offence)

theorem C7_tag_errors_witness:
  "snd (parseFieldTag parseDecimal ''X'' ''string,everywhere,list,colour=red'') =
     Some ''unknown field scope: everywhere''
   \<and> snd (parseFieldTag parseDecimal ''X'' ''string,global,list,colour=red'') =
     Some ''unknown key in tag: colour''
   \<and> reflectFields parseDecimal
        [(''Y'', ''field,local,list''), (''X'', ''string,global,list,colour=red''), (''Z'', ''flag'')] =
     Inl ''parsing field X: unknown key in tag: colour''"
proof -
  have parts: "parseTagParts ''string,everywhere,list,colour=red'' =
       [''string'', ''everywhere'', ''list'', ''colour=red'']"
     "parseTagParts ''string,global,list,colour=red'' =
       [''string'', ''global'', ''list'', ''colour=red'']"
    by (simp_all add: parseTagParts_def)
  have before: "reflectFields parseDecimal [(''Y'', ''field,local,list'')] =
     Inr [(initialMeta ''Y'')\<lparr>Type := FieldTypeField, Scope := ScopeLocal, Mode := ModeList\<rparr>]"
    by (simp add: parseFieldTag_def parseTagParts_def parseFieldTagPart_def trimSpace_def
        isSpace_def containsChar_def parseFieldType_def parseFieldScope_def parseFieldMode_def
        Let_def)
  have off: "firstOffence 0 [''string'', ''everywhere'', ''list'', ''colour=red''] =
          Some ''unknown field scope: everywhere''"
       "firstOffence 0 [''string'', ''global'', ''list'', ''colour=red''] =
          Some ''unknown key in tag: colour''"
    by (simp_all add: offence_def trimSpace_def isSpace_def containsChar_def Let_def)
  note a = C7_tag_errors[of "''string,everywhere,list,colour=red''" parseDecimal "''X''"]
  note b = C7_tag_errors[of "''string,global,list,colour=red''" parseDecimal "''X''"
      "''unknown key in tag: colour''" "[(''Y'', ''field,local,list'')]" _ "[(''Z'', ''flag'')]"]
  from a have 1: "snd (parseFieldTag parseDecimal ''X'' ''string,everywhere,list,colour=red'') =
     Some ''unknown field scope: everywhere''"
    by (simp add: parts off del: firstOffence.simps)
  from b have 2: "snd (parseFieldTag parseDecimal ''X'' ''string,global,list,colour=red'') =
     Some ''unknown key in tag: colour''"
    by (simp add: parts off del: firstOffence.simps)
  from b 2 before have 3: "reflectFields parseDecimal
        [(''Y'', ''field,local,list''), (''X'', ''string,global,list,colour=red''), (''Z'', ''flag'')] =
     Inl ''parsing field X: unknown key in tag: colour''"
    by simp
  from 1 2 3 show ?thesis by simp
qed

text \<open>
  Claim C7 as it is stated fails for missing tokens: the tag \<open>string\<close> has neither scope nor
  multiplicity, and the tag \<open>,,list\<close> neither kind nor scope; both give a descriptor, with
  the defaults \<open>string\<close>, \<open>global\<close> and \<open>last\<close> for what is missing, and no error.
\<close>

theorem C7_missing_tokens_counterexample:
  "parseFieldTag parseDecimal ''X'' ''string'' =
     (\<lparr>Name = ''X'', Type = FieldTypeString, Scope = ScopeGlobal, Mode = ModeLast, Args = [],
       DefaultValue = None, Help = [], Required = False, Complete = [], Suffix = [],
       Enum = []\<rparr>, None)
   \<and> parseFieldTag parseDecimal ''X'' '',,list'' =
     (\<lparr>Name = ''X'', Type = FieldTypeString, Scope = ScopeGlobal, Mode = ModeList, Args = [],
       DefaultValue = None, Help = [], Required = False, Complete = [], Suffix = [],
       Enum = []\<rparr>, None)"
  by (simp add: parseFieldTag_def parseTagParts_def parseFieldTagPart_def trimSpace_def
        isSpace_def containsChar_def parseFieldType_def parseFieldScope_def parseFieldMode_def
        initialMeta_def Let_def)


section \<open>Suffix patterns: what they match\<close>

lemma toLowerChar_idem: "toLowerChar (toLowerChar c) = toLowerChar c"
  by (simp add: toLowerChar_def isUpper_def)

lemma toLower_idem: "toLower (toLower s) = toLower s"
  by (simp add: toLower_def toLowerChar_idem)

lemma indexChar_nonneg_iff: "indexChar s c \<ge> 0 \<longleftrightarrow> c \<in> set s"
  by (induction s) (auto simp: Let_def)










section \<open>The completion context and the bounds of the argument vector\<close>

text \<open>The backward scan never reads outside the vector, whatever the position; the
  analysis as a whole does not for a position that is not negative, and then takes the current
  token as empty past the end.\<close>

lemma findLastFlagLoop_safe: "\<exists>r. findLastFlagLoop metas args i = Inr r"
proof (induction metas args i rule: findLastFlagLoop.induct)
  case (1 metas args i)
  show ?case
  proof (cases "i \<ge> 0")
    case False
    then show ?thesis by (simp add: findLastFlagLoop.simps)
  next
    case nonneg: True
    show ?thesis
    proof (cases "i \<ge> int (length args)")
      case True
      with nonneg 1(1) show ?thesis by (subst findLastFlagLoop.simps) simp
    next
      case False
      with nonneg have g: "goIndex args i = Inr (args ! nat i)" by (simp add: goIndex_def)
      show ?thesis
      proof (cases "hasPrefix (args ! nat i) ''-'' \<or> hasPrefix (args ! nat i) ''+''")
        case True
        with nonneg False g show ?thesis
          by (subst findLastFlagLoop.simps) (auto split: option.splits)
      next
        case np: False
        from 1(2)[OF nonneg False g np] nonneg False g np show ?thesis
          by (subst findLastFlagLoop.simps) simp
      qed
    qed
  qed
qed

lemma findLastFlag_safe: "\<exists>r. findLastFlag metas args pos = Inr r"
  unfolding findLastFlag_def Let_def by (rule findLastFlagLoop_safe)

lemma shouldUseBareFileCompletion_safe: "\<exists>b. shouldUseBareFileCompletion args pos = Inr b"
  by (auto simp: shouldUseBareFileCompletion_def goIndex_def)

lemma classifyArgument_safe:
  "0 \<le> flagPos \<Longrightarrow> \<exists>c. classifyArgument context args pos flagPos fieldMeta = Inr c"
  by (cases "Type fieldMeta") (auto simp: classifyArgument_def Let_def goIndex_def)

lemma findLastFlagLoop_pos:
  "findLastFlagLoop metas args i = Inr (flagPos, Some fm) \<Longrightarrow> 0 \<le> flagPos \<and> flagPos \<le> i"
proof (induction metas args i rule: findLastFlagLoop.induct)
  case (1 metas args i)
  show ?case
  proof (cases "i \<ge> 0")
    case False
    with 1(3) show ?thesis by (simp add: findLastFlagLoop.simps)
  next
    case nonneg: True
    show ?thesis
    proof (cases "i \<ge> int (length args)")
      case True
      with nonneg 1(3) have "findLastFlagLoop metas args (i - 1) = Inr (flagPos, Some fm)"
        by (subst (asm) findLastFlagLoop.simps) simp
      from 1(1)[OF nonneg True this] show ?thesis by simp
    next
      case False
      with nonneg have g: "goIndex args i = Inr (args ! nat i)" by (simp add: goIndex_def)
      show ?thesis
      proof (cases "hasPrefix (args ! nat i) ''-'' \<or> hasPrefix (args ! nat i) ''+''")
        case True
        with nonneg False g 1(3) show ?thesis
          by (subst (asm) findLastFlagLoop.simps) (auto split: option.splits if_splits)
      next
        case np: False
        with nonneg False g 1(3) have "findLastFlagLoop metas args (i - 1) = Inr (flagPos, Some fm)"
          by (subst (asm) findLastFlagLoop.simps) simp
        from 1(2)[OF nonneg False g np this] show ?thesis by simp
      qed
    qed
  qed
qed

lemma findLastFlag_pos:
  assumes "findLastFlag metas args pos = Inr (flagPos, Some fm)"
  shows "0 \<le> flagPos \<and> flagPos < pos \<and> flagPos < int (length args)"
proof (cases "pos > int (length args) - 1")
  case True
  with assms have "findLastFlagLoop metas args (int (length args) - 1) = Inr (flagPos, Some fm)"
    by (simp add: findLastFlag_def Let_def)
  from findLastFlagLoop_pos[OF this] True show ?thesis by simp
next
  case False
  with assms have "findLastFlagLoop metas args (pos - 1) = Inr (flagPos, Some fm)"
    by (simp add: findLastFlag_def Let_def)
  from findLastFlagLoop_pos[OF this] False show ?thesis by simp
qed

lemma analyzeCompletionContext_safe:
  assumes "0 \<le> pos"
  shows "\<exists>c. analyzeCompletionContext metas args pos = Inr c
             \<and> (int (length args) \<le> pos \<longrightarrow> Current c = [])"
proof -
  have "\<exists>current. (if pos < int (length args) then goIndex args pos else Inr []) = Inr current
           \<and> (int (length args) \<le> pos \<longrightarrow> current = [])"
    using assms by (cases "pos < int (length args)") (simp_all add: goIndex_def)
  then obtain current where cur: "(if pos < int (length args) then goIndex args pos else Inr []) = Inr current"
    and past: "int (length args) \<le> pos \<longrightarrow> current = []"
    by blast
  show ?thesis
  proof (cases "hasPrefix current ''-'' \<or> hasPrefix current ''+''")
    case True
    with cur past show ?thesis by (auto simp: analyzeCompletionContext_def Let_def emptyContext_def)
  next
    case False
    obtain flagPos fmo where flf: "findLastFlag metas args pos = Inr (flagPos, fmo)"
      using findLastFlag_safe[of metas args pos] by auto
    show ?thesis
    proof (cases fmo)
      case None
      obtain b where "shouldUseBareFileCompletion args pos = Inr b"
        using shouldUseBareFileCompletion_safe by blast
      with cur past False flf None show ?thesis
        by (auto simp: analyzeCompletionContext_def Let_def emptyContext_def split: option.splits)
    next
      case (Some fm)
      with flf have "0 \<le> flagPos"
        using findLastFlag_pos[of metas args pos flagPos fm] by simp
      from classifyArgument_safe[OF this] obtain c where
        c: "classifyArgument (emptyContext\<lparr>Current := current, TSVFile := findTSVFile args\<rparr>) args pos flagPos fm = Inr c"
        by blast
      then have "Current c = current"
        by (cases "Type fm")
           (auto simp: classifyArgument_def Let_def emptyContext_def split: sum.splits if_splits)
      with c cur past False flf Some show ?thesis
        by (auto simp: analyzeCompletionContext_def Let_def)
    qed
  qed
qed

text \<open>
  Claim C9 fails for a negative position: \<open>pos < len(args)\<close> holds, and \<open>args[pos]\<close> is
  read. The position comes from \<open>strconv.Atoi\<close> in \<open>handleCompletion\<close> and is not checked,
  so \<open>-complete -1 x\<close> reaches \<open>complete\<close> with the vector \<open>[x]\<close> and the position
  \<open>-1\<close>, and the program panics.
\<close>

theorem C9_negative_position_panics:
  "analyzeCompletionContext (testCompletionConfig :: int FieldMeta list) [''x''] (- 1) =
     Inl IndexOutOfRange
   \<and> complete (testCompletionConfig :: int FieldMeta list) sampleFiles defaultScanDepth newCaches
        [''x''] (- 1) = Inl IndexOutOfRange"
  by (simp add: complete_def analyzeCompletionContext_def goIndex_def)


section \<open>Failures on the completion path\<close>

text \<open>Content completion and file completion never return an error: a file that cannot be
  read, an empty file and a directory that cannot be read give no candidates, and a field that
  the header does not have gives none either.\<close>

lemma completeContent_no_error:
  "\<exists>cs st'. completeContent sys scanDepth st filename fieldName partial = (Inr cs, st')"
  by (cases "getFieldValues sys scanDepth st filename fieldName")
     (auto simp: completeContent_def split: sum.splits)

lemma completeContent_failure_empty:
  "getFieldValues sys scanDepth st filename fieldName = (Inl err, st') \<Longrightarrow>
   completeContent sys scanDepth st filename fieldName partial = (Inr [], st')"
  by (simp add: completeContent_def)

lemma getFieldValues_not_found:
  "contentLookup st filename fieldName = None \<Longrightarrow>
   openLines sys filename = Inr (headerLine # rest) \<Longrightarrow>
   fieldIndexOf (parseTSVHeader headerLine) fieldName = None \<Longrightarrow>
   fst (getFieldValues sys scanDepth st filename fieldName) = Inr []"
  by (simp add: getFieldValues_def contentLookup_def Let_def)

lemma completeFilesWithSuffix_no_error:
  "\<exists>cs. completeFilesWithSuffix sys partial fieldMeta = Inr cs"
  by (auto simp: completeFilesWithSuffix_def Let_def split: option.splits prod.splits)

lemma completeFilesWithSuffix_unreadable:
  "(\<And>d. readDir sys d = None) \<Longrightarrow> completeFilesWithSuffix sys partial fieldMeta = Inr []"
  by (auto simp: completeFilesWithSuffix_def Let_def split: option.splits prod.splits)

lemma findField_field:
  "findField (testCompletionConfig :: 'n FieldMeta list) ''-field'' =
     Some \<lparr>Name = ''Field'', Type = FieldTypeField, Scope = ScopeGlobal, Mode = ModeLast,
            Args = [], DefaultValue = None, Help = ''Field name'', Required = False,
            Complete = [], Suffix = [], Enum = []\<rparr>"
  by (simp add: testCompletionConfig_def parseFlagName_Name parseFlagName_Type testCompletion_flags)

lemma findLastFlag_field_example:
  "findLastFlag (testCompletionConfig :: 'n FieldMeta list) [f, ''-field'', ''h''] 2 =
     Inr (1, findField testCompletionConfig ''-field'')"
  by (simp add: findLastFlag_def Let_def findLastFlagLoop.simps goIndex_def hasPrefix_def
        findField_field)

lemma analyze_field_example:
  "\<not> hasPrefix f ''-'' \<Longrightarrow> isTabular f \<Longrightarrow>
   analyzeCompletionContext (testCompletionConfig :: 'n FieldMeta list) [f, ''-field'', ''h''] 2 =
     Inr (emptyContext\<lparr>CtxType := CompletionField, Current := ''h'', TSVFile := f,
            CtxFieldMeta := findField testCompletionConfig ''-field''\<rparr>)"
  by (simp add: analyzeCompletionContext_def goIndex_def hasPrefix_def emptyContext_def
        findTSVFile_def findLastFlag_field_example findField_field classifyArgument_def Let_def)

text \<open>
  Claim C2 fails on field-name completion: \<open>completeField\<close> returns the error of
  \<open>getFields\<close>, and \<open>complete\<close> returns it to \<open>handleCompletion\<close>, which returns it to
  \<open>Execute\<close>. Completing the argument of \<open>-field\<close> with a data file that is missing, or
  empty, gives the error and no candidate list.
\<close>

theorem C2_field_completion_propagates_error:
  "complete (testCompletionConfig :: int FieldMeta list) sampleFiles defaultScanDepth newCaches
     [''gone.tsv'', ''-field'', ''h''] 2 =
     Inr (Inl ''opening file gone.tsv: open gone.tsv: no such file or directory'', newCaches)
   \<and> complete (testCompletionConfig :: int FieldMeta list) sampleFiles defaultScanDepth newCaches
     [''empty.tsv'', ''-field'', ''h''] 2 =
     Inr (Inl ''file empty.tsv is empty'', newCaches)"
  by (simp add: complete_def analyze_field_example isTabular_def hasPrefix_def hasSuffix_def
        emptyContext_def completeField_def getFields_def newCaches_def sampleFiles_def)

section \<open>The caches\<close>

lemma getFields_second_call:
  "getFields sys st f = (Inr r, st') \<Longrightarrow> getFields sys' st' f = (Inr r, st')"
  by (auto simp: getFields_def Let_def split: option.splits sum.splits list.splits)

lemma getFieldValues_second_call:
  assumes "getFieldValues sys d st f fld = (Inr r, st')"
    and "contentLookup st f fld \<noteq> None \<or>
         (\<exists>h rows i. openLines sys f = Inr (h # rows) \<and>
                     fieldIndexOf (parseTSVHeader h) fld = Some i)"
  shows "getFieldValues sys' d' st' f fld = (Inr r, st')"
proof (cases "contentLookup st f fld")
  case (Some v)
  with assms(1) show ?thesis
    by (auto simp: getFieldValues_def contentLookup_def)
next
  case None
  with assms(2) obtain h rows i where o: "openLines sys f = Inr (h # rows)"
    and i: "fieldIndexOf (parseTSVHeader h) fld = Some i" by auto
  from None assms(1) o i have "contentLookup st' f fld = Some r"
    by (auto simp: getFieldValues_def contentLookup_def Let_def split: option.splits)
  then show ?thesis
    by (auto simp: getFieldValues_def contentLookup_def)
qed

lemma getFields_keeps:
  "fieldCache st k = Some v \<Longrightarrow> fieldCache (snd (getFields sys st f)) k = Some v"
  "contentLookup (snd (getFields sys st f)) k1 k2 = contentLookup st k1 k2"
  by (auto simp: getFields_def contentLookup_def Let_def split: option.splits sum.splits list.splits)

lemma getFieldValues_keeps:
  "fieldCache (snd (getFieldValues sys d st f fld)) k = fieldCache st k"
  "contentLookup st k1 k2 = Some v \<Longrightarrow>
   contentLookup (snd (getFieldValues sys d st f fld)) k1 k2 = Some v"
  by (auto simp: getFieldValues_def contentLookup_def Let_def
           split: option.splits sum.splits list.splits)

text \<open>
  Claim C6, as amended. Once \<open>getFields\<close> has returned without error for a file, and once
  \<open>getFieldValues\<close> has returned without error for a file and a field that the header of
  the file has (or that the cache already held), the next call with the same key returns the
  same result and leaves the caches as they are whatever the machine then is, so without
  reading the file. Neither function changes an entry that a cache holds.
\<close>

theorem C6_cache_hits:
  "(getFields sys st f = (Inr r, st') \<longrightarrow> getFields sys' st' f = (Inr r, st'))
   \<and> (getFieldValues sys d st f fld = (Inr r, st') \<and>
       (contentLookup st f fld \<noteq> None \<or>
        (\<exists>h rows i. openLines sys f = Inr (h # rows) \<and>
                    fieldIndexOf (parseTSVHeader h) fld = Some i))
       \<longrightarrow> getFieldValues sys' d' st' f fld = (Inr r, st'))
   \<and> (fieldCache st k = Some v \<longrightarrow>
        fieldCache (snd (getFields sys st f)) k = Some v \<and>
        fieldCache (snd (getFieldValues sys d st f fld)) k = Some v)
   \<and> (contentLookup st k1 k2 = Some w \<longrightarrow>
        contentLookup (snd (getFields sys st f)) k1 k2 = Some w \<and>
        contentLookup (snd (getFieldValues sys d st f fld)) k1 k2 = Some w)"
proof (intro conjI impI)
  assume "getFields sys st f = (Inr r, st')"
  then show "getFields sys' st' f = (Inr r, st')" by (rule getFields_second_call)
next
  assume a: "getFieldValues sys d st f fld = (Inr r, st') \<and>
       (contentLookup st f fld \<noteq> None \<or>
        (\<exists>h rows i. openLines sys f = Inr (h # rows) \<and>
                    fieldIndexOf (parseTSVHeader h) fld = Some i))"
  show "getFieldValues sys' d' st' f fld = (Inr r, st')"
    by (rule getFieldValues_second_call[OF conjunct1[OF a] conjunct2[OF a]])
next
  assume "fieldCache st k = Some v"
  then show "fieldCache (snd (getFields sys st f)) k = Some v" by (rule getFields_keeps(1))
next
  assume "fieldCache st k = Some v"
  then show "fieldCache (snd (getFieldValues sys d st f fld)) k = Some v"
    by (simp add: getFieldValues_keeps(1))
next
  assume "contentLookup st k1 k2 = Some w"
  then show "contentLookup (snd (getFields sys st f)) k1 k2 = Some w"
    by (simp add: getFields_keeps(2))
next
  assume "contentLookup st k1 k2 = Some w"
  then show "contentLookup (snd (getFieldValues sys d st f fld)) k1 k2 = Some w"
    by (rule getFieldValues_keeps(2))
qed

lemma sample_header:
  "parseTSVHeader (''host'' @ [CHR 0x09] @ ''cpu'') = [''host'', ''cpu'']"
  by (simp add: parseTSVHeader_def Let_def
        isAlnum_def isLower_def isUpper_def isDigit_def containsChar_def trimSpace_def isSpace_def)

theorem C6_cache_hits_witness:
  "getFields noFiles (snd (getFields sampleFiles newCaches ''data.tsv'')) ''data.tsv'' =
     (Inr [''host'', ''cpu''], snd (getFields sampleFiles newCaches ''data.tsv''))
   \<and> fst (getFieldValues noFiles 0
        (snd (getFieldValues sampleFiles defaultScanDepth newCaches ''data.tsv'' ''cpu''))
        ''data.tsv'' ''cpu'') =
      fst (getFieldValues sampleFiles defaultScanDepth newCaches ''data.tsv'' ''cpu'')"
proof -
  have g: "getFields sampleFiles newCaches ''data.tsv'' =
      (Inr [''host'', ''cpu''], snd (getFields sampleFiles newCaches ''data.tsv''))"
    using sample_header by (simp add: getFields_def newCaches_def sampleFiles_def Let_def)
  obtain r st' where v: "getFieldValues sampleFiles defaultScanDepth newCaches ''data.tsv'' ''cpu'' = (Inr r, st')"
    using sample_header
    by (simp add: getFieldValues_def newCaches_def sampleFiles_def Let_def)
  have o: "\<exists>h rows i. openLines sampleFiles ''data.tsv'' = Inr (h # rows) \<and>
                    fieldIndexOf (parseTSVHeader h) ''cpu'' = Some i"
    using sample_header by (simp add: sampleFiles_def)
  note t = C6_cache_hits[of sampleFiles newCaches "''data.tsv''" _ _ noFiles defaultScanDepth "''cpu''" 0]
  from t g have 1: "getFields noFiles (snd (getFields sampleFiles newCaches ''data.tsv'')) ''data.tsv'' =
     (Inr [''host'', ''cpu''], snd (getFields sampleFiles newCaches ''data.tsv''))"
    by blast
  from t v o have "getFieldValues noFiles 0 st' ''data.tsv'' ''cpu'' = (Inr r, st')"
    by blast
  with v 1 show ?thesis by simp
qed

lemma sample_not_found:
  "getFieldValues sampleFiles defaultScanDepth newCaches ''data.tsv'' ''mem'' =
     (Inr [], newCaches\<lparr>contentCache := [''data.tsv'' \<mapsto> Map.empty]\<rparr>)"
  by (simp add: getFieldValues_def newCaches_def sampleFiles_def parseTSVHeader_def Let_def
        isAlnum_def isLower_def isUpper_def isDigit_def containsChar_def trimSpace_def isSpace_def)

text \<open>
  Claim C6 as it is stated fails for a field that the header does not have:
  \<open>getFieldValues\<close> returns the empty list without error and writes no entry for the field,
  so the next call opens the file again (here the file is gone by then, and the call fails).
\<close>

theorem C6_not_found_reads_again_counterexample:
  "getFieldValues sampleFiles defaultScanDepth newCaches ''data.tsv'' ''mem'' =
     (Inr [], newCaches\<lparr>contentCache := [''data.tsv'' \<mapsto> Map.empty]\<rparr>)
   \<and> getFieldValues noFiles defaultScanDepth
        (newCaches\<lparr>contentCache := [''data.tsv'' \<mapsto> Map.empty]\<rparr>) ''data.tsv'' ''mem'' =
     (Inl ''opening file data.tsv: open data.tsv: no such file or directory'',
      newCaches\<lparr>contentCache := [''data.tsv'' \<mapsto> Map.empty]\<rparr>)"
  by (simp add: sample_not_found)
     (simp add: getFieldValues_def newCaches_def noFiles_def sampleFiles_def Let_def)


section \<open>Completion of field values\<close>

text \<open>The sort of \<open>getFieldValues\<close> sorts: its result is the sorted list of the set of
  values, whatever the order in which they come.\<close>

lemma exchangeMin_mset:
  "exchangeMin x ys = (m, r) \<Longrightarrow> mset (m # r) = mset (x # ys)"
proof (induction ys arbitrary: x m r)
  case Nil
  then show ?case by simp
next
  case (Cons y ys)
  show ?case
  proof (cases "x > y")
    case True
    obtain m' r' where e: "exchangeMin y ys = (m', r')" by (cases "exchangeMin y ys") auto
    with Cons.prems True have "m = m'" "r = x # r'" by simp_all
    with Cons.IH[OF e] show ?thesis by simp
  next
    case False
    obtain m' r' where e: "exchangeMin x ys = (m', r')" by (cases "exchangeMin x ys") auto
    with Cons.prems False have "m = m'" "r = y # r'" by simp_all
    with Cons.IH[OF e] show ?thesis by simp
  qed
qed

lemma exchangeMin_least:
  "exchangeMin x ys = (m, r) \<Longrightarrow> m \<le> x \<and> (\<forall>y \<in> set ys. m \<le> y)"
proof (induction ys arbitrary: x m r)
  case Nil
  then show ?case by simp
next
  case (Cons y ys)
  show ?case
  proof (cases "x > y")
    case True
    obtain m' r' where e: "exchangeMin y ys = (m', r')" by (cases "exchangeMin y ys") auto
    with Cons.prems True have "m = m'" by simp
    with Cons.IH[OF e] True show ?thesis by auto
  next
    case False
    obtain m' r' where e: "exchangeMin x ys = (m', r')" by (cases "exchangeMin x ys") auto
    with Cons.prems False have "m = m'" by simp
    with Cons.IH[OF e] False show ?thesis by auto
  qed
qed

lemma exchangeSort_mset: "mset (exchangeSort xs) = mset xs"
proof (induction xs rule: exchangeSort.induct)
  case 1
  show ?case by simp
next
  case (2 x xs)
  obtain m r where e: "exchangeMin x xs = (m, r)" by (cases "exchangeMin x xs") auto
  from 2[OF e[symmetric]] exchangeMin_mset[OF e] e show ?case by simp
qed

lemma exchangeSort_sorted: "sorted (exchangeSort xs)"
proof (induction xs rule: exchangeSort.induct)
  case 1
  show ?case by simp
next
  case (2 x xs)
  obtain m r where e: "exchangeMin x xs = (m, r)" by (cases "exchangeMin x xs") auto
  have "set r \<subseteq> set (x # xs)"
    using exchangeMin_mset[OF e] by (metis mset_eq_setD set_subset_Cons)
  then have "\<forall>y \<in> set r. m \<le> y"
    using exchangeMin_least[OF e] by auto
  moreover have "set (exchangeSort r) = set r"
    using exchangeSort_mset[of r] by (rule mset_eq_setD)
  ultimately show ?case
    using 2[OF e[symmetric]] e by simp
qed

lemma exchangeSort_sorted_list_of_set:
  "distinct xs \<Longrightarrow> exchangeSort xs = sorted_list_of_set (set xs)"
proof -
  assume d: "distinct xs"
  have "distinct (exchangeSort xs)"
    using d exchangeSort_mset[of xs] by (metis mset_eq_imp_distinct_iff)
  moreover have "set (exchangeSort xs) = set xs"
    using exchangeSort_mset[of xs] by (rule mset_eq_setD)
  ultimately show ?thesis
    using exchangeSort_sorted[of xs]
    by (metis sorted_list_of_set.idem_if_sorted_distinct)
qed

text \<open>The scan reads the first \<open>scanDepth\<close> data lines and no more.\<close>

lemma scanLines_set:
  "set (scanLines idx d n lines vs) =
     set vs \<union> {v. \<exists>line \<in> set (take (d - n) lines). lineValue idx line = Some v}"
proof (induction lines arbitrary: n vs)
  case Nil
  show ?case by simp
next
  case (Cons line lines)
  show ?case
  proof (cases "n < d")
    case False
    then show ?thesis by simp
  next
    case True
    have t: "take (d - n) (line # lines) = line # take (d - Suc n) lines"
    proof -
      from True have "d - n = Suc (d - Suc n)" by simp
      then show ?thesis by simp
    qed
    show ?thesis
      using True Cons[of "Suc n"]
      by (cases "lineValue idx line") (auto simp: t)
  qed
qed

lemma scanLines_distinct:
  "distinct vs \<Longrightarrow> distinct (scanLines idx d n lines vs)"
  by (induction lines arbitrary: n vs) (auto split: option.splits)

lemma getFieldValues_reads:
  assumes "contentLookup st f fld = None"
    and "openLines sys f = Inr (header # rows)"
    and "fieldIndexOf (parseTSVHeader header) fld = Some idx"
  shows "fst (getFieldValues sys d st f fld) =
     Inr (sorted_list_of_set {v. \<exists>line \<in> set (take d rows). lineValue idx line = Some v})"
proof -
  have "exchangeSort (scanLines idx d 0 rows []) =
        sorted_list_of_set {v. \<exists>line \<in> set (take d rows). lineValue idx line = Some v}"
    using exchangeSort_sorted_list_of_set[OF scanLines_distinct[of "[]" idx d 0 rows]]
          scanLines_set[of idx d 0 rows "[]"]
    by simp
  with assms show ?thesis
    by (simp add: getFieldValues_def contentLookup_def Let_def)
qed


text \<open>The context of the second argument of a switch with \<open>args=field:content\<close>: the
  switch, spelt with \<open>-\<close> or \<open>+\<close>, the field name, and the token being completed (or
  nothing, at the end of the vector).\<close>

lemma findLastFlag_at_switch:
  assumes fm: "findField metas flag = Some fm" and nm: "Name fm \<noteq> []"
    and sw: "sw = flag \<or> sw = ''+'' @ tl flag"
    and np: "\<not> hasPrefix fieldName ''-''" "\<not> hasPrefix fieldName ''+''"
  shows "findLastFlag metas (pre @ sw # fieldName # rest) (int (length pre) + 2) =
           Inr (int (length pre), Some fm)"
proof -
  let ?args = "pre @ sw # fieldName # rest"
  from fm nm have pre: "hasPrefix flag ''-''" and len: "1 < length flag"
    using findField_flag[OF fm] parseFlagName_prefix parseFlagName_length by auto
  have fl: "''-'' @ tl flag = flag" using pre by (cases flag) (auto simp: hasPrefix_def)
  have notplus: "\<not> hasPrefix flag ''+''" using pre by (cases flag) (auto simp: hasPrefix_def)
  have start: "findLastFlag metas ?args (int (length pre) + 2) =
        findLastFlagLoop metas ?args (int (length pre) + 1)"
    by (simp add: findLastFlag_def Let_def add.commute)
  have g1: "goIndex ?args (int (length pre) + 1) = Inr fieldName"
    by (simp add: goIndex_def nth_append nat_add_distrib)
  have step1: "findLastFlagLoop metas ?args (int (length pre) + 1) =
        findLastFlagLoop metas ?args (int (length pre))"
    using g1 np by (subst findLastFlagLoop.simps) simp
  have g0: "goIndex ?args (int (length pre)) = Inr sw"
    by (simp add: goIndex_def nth_append)
  have step0: "findLastFlagLoop metas ?args (int (length pre)) = Inr (int (length pre), Some fm)"
  proof (cases "sw = flag")
    case True
    with g0 pre len notplus fm show ?thesis
      by (subst findLastFlagLoop.simps) simp
  next
    case False
    with sw have s: "sw = ''+'' @ tl flag" by simp
    then have "hasPrefix sw ''+''" "1 < length sw" "''-'' @ tl sw = flag"
      using len fl by (auto simp: hasPrefix_def)
    with g0 fm show ?thesis
      by (subst findLastFlagLoop.simps) simp
  qed
  from start step1 step0 show ?thesis by simp
qed

lemma analyze_content_argument:
  assumes fm: "findField metas flag = Some fm" and nm: "Name fm \<noteq> []"
    and sw: "sw = flag \<or> sw = ''+'' @ tl flag"
    and ty: "Type fm = FieldTypeMulti"
            "map ArgType (Args fm) = [ArgumentTypeField, ArgumentTypeContent]"
    and partial: "partial = (case rest of [] \<Rightarrow> [] | p # ps \<Rightarrow> p)"
    and np: "\<not> hasPrefix fieldName ''-''" "\<not> hasPrefix fieldName ''+''"
            "\<not> hasPrefix partial ''-''" "\<not> hasPrefix partial ''+''"
  shows "\<exists>c. analyzeCompletionContext metas (pre @ sw # fieldName # rest) (int (length pre) + 2)
               = Inr c
             \<and> CtxType c = CompletionMultiArg \<and> Current c = partial
             \<and> TSVFile c = findTSVFile (pre @ sw # fieldName # rest)
             \<and> FieldName c = fieldName
             \<and> (\<exists>spec. CtxArgumentSpec c = Some spec \<and> ArgType spec = ArgumentTypeContent)"
proof -
  let ?args = "pre @ sw # fieldName # rest"
  let ?pos = "int (length pre) + 2"
  from ty(2) obtain a0 a1 where as: "Args fm = [a0, a1]" "ArgType a0 = ArgumentTypeField"
      "ArgType a1 = ArgumentTypeContent"
    by (cases "Args fm"; cases "tl (Args fm)") auto
  have cur: "(if ?pos < int (length ?args) then goIndex ?args ?pos else Inr []) = Inr partial"
    unfolding partial by (cases rest) (simp_all add: goIndex_def nth_append nat_add_distrib)
  have name: "goIndex ?args (int (length pre) + 1) = Inr fieldName"
    by (simp add: goIndex_def nth_append nat_add_distrib)
  note flf = findLastFlag_at_switch[OF fm nm sw np(1,2), of pre rest]
  show ?thesis
    using cur name flf np(3,4) ty(1) as
    by (simp add: analyzeCompletionContext_def classifyArgument_def Let_def emptyContext_def
          goIndex_def)
qed

text \<open>There \<open>complete\<close> returns the values that \<open>lineValue\<close> finds for the field in
  the first 100 data lines, without duplicates, sorted, and filtered by the partial token as a
  prefix without regard to case.\<close>

lemma field_value_completion:
  assumes fm: "findField metas flag = Some fm" and nm: "Name fm \<noteq> []"
    and sw: "sw = flag \<or> sw = ''+'' @ tl flag"
    and ty: "Type fm = FieldTypeMulti"
            "map ArgType (Args fm) = [ArgumentTypeField, ArgumentTypeContent]"
    and args: "args = pre @ sw # fieldName # rest" and pos: "pos = int (length pre) + 2"
    and partial: "partial = (case rest of [] \<Rightarrow> [] | p # ps \<Rightarrow> p)"
    and np: "\<not> hasPrefix fieldName ''-''" "\<not> hasPrefix fieldName ''+''"
            "\<not> hasPrefix partial ''-''" "\<not> hasPrefix partial ''+''"
    and tsv: "findTSVFile args = file" "file \<noteq> []" and fn: "fieldName \<noteq> []"
    and miss: "contentLookup st file fieldName = None"
    and op: "openLines sys file = Inr (header # rows)"
    and idx: "fieldIndexOf (parseTSVHeader header) fieldName = Some idx"
  shows "\<exists>st'. complete metas sys defaultScanDepth st args pos =
     Inr (Inr (filter (\<lambda>v. hasPrefix (toLower v) (toLower partial))
                 (sorted_list_of_set
                    {v. \<exists>line \<in> set (take 100 rows). lineValue idx line = Some v})), st')"
proof -
  from analyze_content_argument[OF fm nm sw ty partial np, of pre]
  obtain c spec where c: "analyzeCompletionContext metas args pos = Inr c"
    "CtxType c = CompletionMultiArg" "Current c = partial" "TSVFile c = file"
    "FieldName c = fieldName" "CtxArgumentSpec c = Some spec" "ArgType spec = ArgumentTypeContent"
    unfolding args pos using tsv(1)[unfolded args] by auto
  obtain r st' where g: "getFieldValues sys defaultScanDepth st file fieldName = (r, st')"
    by (cases "getFieldValues sys defaultScanDepth st file fieldName") auto
  with getFieldValues_reads[OF miss op idx, of defaultScanDepth]
  have r: "r = Inr (sorted_list_of_set {v. \<exists>line \<in> set (take 100 rows). lineValue idx line = Some v})"
    by (simp add: defaultScanDepth_def)
  show ?thesis
    using c g r tsv(2) fn
    by (simp add: complete_def completeMultiArgument_def completeContent_def)
qed

lemma findField_match:
  "findField (testCompletionConfig :: 'n FieldMeta list) ''-match'' =
     Some \<lparr>Name = ''Match'', Type = FieldTypeMulti, Scope = ScopeLocal, Mode = ModeList,
       Args = [\<lparr>ArgName = ''field'', ArgType = ArgumentTypeField\<rparr>,
               \<lparr>ArgName = ''content'', ArgType = ArgumentTypeContent\<rparr>],
       DefaultValue = None, Help = ''Match conditions'', Required = False, Complete = [],
       Suffix = [], Enum = []\<rparr>"
  by (simp add: testCompletionConfig_def parseFlagName_Name parseFlagName_Type testCompletion_flags)

lemma tab_separated_example:
  "\<exists>st'. complete (testCompletionConfig :: int FieldMeta list) sampleFiles defaultScanDepth
     newCaches [''data.tsv'', ''+match'', ''host'', ''W''] 3 =
   Inr (Inr [''Web3'', ''web1'', ''web2''], st')"
proof -
  let ?args = "[''data.tsv'', ''+match'', ''host'', ''W'']"
  have f: "findTSVFile ?args = ''data.tsv''"
    by (simp add: findTSVFile_def isTabular_def hasSuffix_def hasPrefix_def)
  have v: "fst (getFieldValues sampleFiles defaultScanDepth newCaches ''data.tsv'' ''host'') =
     Inr [''Web3'', ''db1'', ''web1'', ''web2'']"
    by (simp add: getFieldValues_def newCaches_def sampleFiles_def parseTSVHeader_def Let_def
        isAlnum_def isLower_def isUpper_def isDigit_def containsChar_def trimSpace_def isSpace_def
        defaultScanDepth_def lineValue_def)
  have l: "toLower ''W'' = ''w''" "toLower ''Web3'' = ''web3''" "toLower ''db1'' = ''db1''"
     "toLower ''web1'' = ''web1''" "toLower ''web2'' = ''web2''"
    by code_simp+
  from analyze_content_argument[OF findField_match, of "''+match''" "''W''" "[''W'']" "''host''" "[''data.tsv'']"]
  obtain c spec where c: "analyzeCompletionContext (testCompletionConfig :: int FieldMeta list) ?args 3 = Inr c"
    "CtxType c = CompletionMultiArg" "Current c = ''W''" "TSVFile c = ''data.tsv''"
    "FieldName c = ''host''" "CtxArgumentSpec c = Some spec" "ArgType spec = ArgumentTypeContent"
    using f by (auto simp: hasPrefix_def)
  obtain r st' where g: "getFieldValues sampleFiles defaultScanDepth newCaches ''data.tsv'' ''host'' = (r, st')"
    by (cases "getFieldValues sampleFiles defaultScanDepth newCaches ''data.tsv'' ''host''") auto
  with v have "r = Inr [''Web3'', ''db1'', ''web1'', ''web2'']" by simp
  with c g show ?thesis
    by (simp add: complete_def completeMultiArgument_def completeContent_def l hasPrefix_def)
qed

lemma sample_csv_values:
  "getFieldValues sampleFiles defaultScanDepth newCaches ''data.csv'' ''host'' =
     (Inr [''web1,5'', ''web2,7''],
      newCaches\<lparr>contentCache := [''data.csv'' \<mapsto> [''host'' \<mapsto> [''web1,5'', ''web2,7'']]]\<rparr>)"
  by (simp add: getFieldValues_def newCaches_def sampleFiles_def parseTSVHeader_def Let_def
        isAlnum_def isLower_def isUpper_def isDigit_def containsChar_def trimSpace_def isSpace_def
        defaultScanDepth_def lineValue_def)

text \<open>
  Claim C4 fails for the first field of a comma-separated file. \<open>getFieldValues\<close> splits a
  data line at commas only when the split at tabs gives too few parts, and for the first field
  one part is enough: the value it takes is the whole line. With the header \<open>host,cpu\<close> and
  the lines \<open>web2,7\<close> and \<open>web1,5\<close>, completing the content argument of
  \<open>-match host\<close> gives the two lines, not the values \<open>web1\<close> and \<open>web2\<close> of the
  field.
\<close>

theorem C4_first_column_of_csv:
  "complete (testCompletionConfig :: int FieldMeta list) sampleFiles defaultScanDepth newCaches
     [''data.csv'', ''-match'', ''host'', []] 3 =
   Inr (Inr [''web1,5'', ''web2,7''],
        newCaches\<lparr>contentCache := [''data.csv'' \<mapsto> [''host'' \<mapsto> [''web1,5'', ''web2,7'']]]\<rparr>)"
proof -
  let ?args = "[''data.csv'', ''-match'', ''host'', []]"
  have f: "findTSVFile ?args = ''data.csv''"
    by (simp add: findTSVFile_def isTabular_def hasSuffix_def hasPrefix_def)
  from analyze_content_argument[OF findField_match, of "''-match''" "[]" "[[]]" "''host''" "[''data.csv'']"]
  obtain c spec where c: "analyzeCompletionContext (testCompletionConfig :: int FieldMeta list) ?args 3 = Inr c"
    "CtxType c = CompletionMultiArg" "Current c = []" "TSVFile c = ''data.csv''"
    "FieldName c = ''host''" "CtxArgumentSpec c = Some spec" "ArgType spec = ArgumentTypeContent"
    using f by (auto simp: hasPrefix_def)
  then show ?thesis
    by (simp add: complete_def completeMultiArgument_def completeContent_def sample_csv_values
          hasPrefix_def toLower_def)
qed


end
